theory Spec2Isabelle
  imports Complex_Main "HOL-Library.Word" "HOL-Library.Monad_Syntax"
begin

section \<open>Array2D: a windowed two-dimensional raster array\<close>

text \<open>
  A shallow embedding of \<^verbatim>\<open>libs/common/Array2D.hpp\<close>.

  \<^item> The C++ type \<^verbatim>\<open>int\<close> has 32 bits. Its values are modelled by \<^typ>\<open>int\<close>, and
    the result of an \<^verbatim>\<open>int\<close> product or sum that the source returns, compares or uses
    as a size or as an index (\<^verbatim>\<open>xyToI\<close>, \<^verbatim>\<open>viewSize\<close>, \<^verbatim>\<open>resize\<close>, the asserted bound of
    \<^verbatim>\<open>operator()\<close>, the bound of \<^verbatim>\<open>operator==\<close>, the cell index of \<^verbatim>\<open>setRow\<close> and
    \<^verbatim>\<open>setCol\<close>) is reduced to 32 bits in two's complement (\<open>wrap32\<close>), which is what
    the compiled code computes. The offsets \<^verbatim>\<open>data.data()+y*view_width\<close> of the row loops
    and the window arithmetic of \<^verbatim>\<open>loadGDAL\<close> are taken as they are: an offset that
    does not fit is outside every buffer that \<^verbatim>\<open>resize\<close> can allocate.
  \<^item> \<^verbatim>\<open>/\<close> and \<^verbatim>\<open>%\<close> on \<^verbatim>\<open>int\<close> truncate towards zero (\<open>c_div\<close>, \<open>c_mod\<close>);
    division by zero is undefined behaviour and is the value \<open>None\<close>.
  \<^item> The element type \<^verbatim>\<open>T\<close> is a type variable; \<^verbatim>\<open>T()\<close> is \<open>0\<close>. \<^verbatim>\<open>operator==\<close> takes
    the \<^verbatim>\<open>!=\<close> of the element type as a parameter, since on \<^verbatim>\<open>float\<close> and \<^verbatim>\<open>double\<close> it
    is not the negation of identity. The count of data cells compares with HOL
    equality.
  \<^item> \<^verbatim>\<open>double\<close> is a type variable \<open>'d\<close>, with its addition, multiplication and the
    conversion from \<^verbatim>\<open>int\<close> taken as parameters, so that nothing is assumed about
    rounding.
  \<^item> An exception, a failed \<^verbatim>\<open>assert\<close> and an access outside a vector are values of
    the type \<open>error\<close>. A public method that throws leaves its object behind:
    \<open>Throws e s\<close> is the exception \<open>e\<close> with the object in state \<open>s\<close>.
\<close>

subsection \<open>Data model\<close>

datatype GDALDataType =
  GDT_Unknown | GDT_Byte | GDT_UInt16 | GDT_Int16 | GDT_UInt32 | GDT_Int32
  | GDT_Float32 | GDT_Float64

datatype error =
    AssertionFailed
  | CouldNotOpen
  | GeotransformError
  | ReadError
  | WriteError
  | DriverError
  | LengthError
  | OutOfBounds

text \<open>
  What a call on an object comes to: it returns with the object in a new state, it
  throws an exception and leaves the object in a state, or it does not come back (a
  failed assertion, undefined behaviour).
\<close>

datatype 's result = Ok 's | Throws error 's | Fails error

record ('a, 'd) Array2D =
  filename :: string
  basename :: string
  geotransform :: "'d list"
  projection :: string
  data :: "'a list"
  data_type :: GDALDataType
  total_height :: int
  total_width :: int
  view_height :: int
  view_width :: int
  view_xoff :: int
  view_yoff :: int
  num_data_cells :: int
  no_data :: 'a

subsection \<open>Integer division of C++\<close>

definition c_div :: "int \<Rightarrow> int \<Rightarrow> int" where
  "c_div a b = sgn a * sgn b * (\<bar>a\<bar> div \<bar>b\<bar>)"

definition c_mod :: "int \<Rightarrow> int \<Rightarrow> int" where
  "c_mod a b = sgn a * (\<bar>a\<bar> mod \<bar>b\<bar>)"

subsection \<open>Arithmetic in 32 bits\<close>

text \<open>The values of a 32-bit \<^verbatim>\<open>int\<close>, and the value that 32 bits keep of an integer.\<close>

definition int32 :: "int \<Rightarrow> bool" where
  "int32 x = (- (2 ^ 31) \<le> x \<and> x < 2 ^ 31)"

definition wrap32 :: "int \<Rightarrow> int" where
  "wrap32 x = (x + 2 ^ 31) mod 2 ^ 32 - 2 ^ 31"

subsection \<open>Accessors and coordinate conversions\<close>

definition viewSize :: "('a, 'd) Array2D \<Rightarrow> int" where
  "viewSize a = wrap32 (view_width a * view_height a)"

definition empty_Array2D :: "('a, 'd) Array2D \<Rightarrow> bool" where
  "empty_Array2D a = (data a = [])"

definition iToxy :: "('a, 'd) Array2D \<Rightarrow> int \<Rightarrow> (int \<times> int) option" where
  "iToxy a i =
     (if view_width a = 0 then None
      else Some (c_mod i (view_width a), c_div i (view_width a)))"

definition xyToI :: "('a, 'd) Array2D \<Rightarrow> int \<Rightarrow> int \<Rightarrow> int" where
  "xyToI a x y = wrap32 (wrap32 (y * view_width a) + x)"

definition nToI :: "('a, 'd) Array2D \<Rightarrow> int \<Rightarrow> int \<Rightarrow> int \<Rightarrow> int option" where
  "nToI a i dx dy =
     (if view_width a = 0 then None
      else
        let x = c_mod i (view_width a) + dx;
            y = c_div i (view_width a) + dy
        in if x < 0 \<or> y < 0 \<or> x = view_width a \<or> y = view_height a
           then Some (- 1)
           else Some (xyToI a x y))"

definition in_grid :: "('a, 'd) Array2D \<Rightarrow> int \<Rightarrow> int \<Rightarrow> bool" where
  "in_grid a x y = (0 \<le> x \<and> x < view_width a \<and> 0 \<le> y \<and> y < view_height a)"

subsection \<open>Access to the pixel buffer\<close>

text \<open>
  \<^verbatim>\<open>std::vector::operator[]\<close> does not check its index; an index outside the vector is
  undefined behaviour, here the error \<open>OutOfBounds\<close>.
\<close>

definition load_cell :: "'a list \<Rightarrow> int \<Rightarrow> error + 'a" where
  "load_cell d i =
     (if 0 \<le> i \<and> i < int (length d) then Inr (d ! nat i) else Inl OutOfBounds)"

definition store_cell :: "'a list \<Rightarrow> int \<Rightarrow> 'a \<Rightarrow> error + 'a list" where
  "store_cell d i v =
     (if 0 \<le> i \<and> i < int (length d) then Inr (d[nat i := v]) else Inl OutOfBounds)"

text \<open>A run of \<open>n\<close> cells starting at \<open>data.data() + pos\<close>, read or overwritten.\<close>

definition read_cells :: "'a list \<Rightarrow> int \<Rightarrow> int \<Rightarrow> error + 'a list" where
  "read_cells d pos n =
     (if 0 \<le> pos \<and> 0 \<le> n \<and> pos + n \<le> int (length d)
      then Inr (take (nat n) (drop (nat pos) d))
      else Inl OutOfBounds)"

definition write_cells :: "'a list \<Rightarrow> int \<Rightarrow> 'a list \<Rightarrow> error + 'a list" where
  "write_cells d pos cells =
     (if 0 \<le> pos \<and> pos + int (length cells) \<le> int (length d)
      then Inr (take (nat pos) d @ cells @ drop (nat pos + length cells) d)
      else Inl OutOfBounds)"

subsection \<open>Construction, resizing and bulk mutation\<close>

text \<open>
  The default constructor leaves \<^verbatim>\<open>no_data\<close> and \<^verbatim>\<open>data_type\<close> uninitialised: they
  are parameters here.
\<close>

definition Array2D_default :: "'a \<Rightarrow> GDALDataType \<Rightarrow> ('a, 'd) Array2D" where
  "Array2D_default nd dt =
     \<lparr> filename = [], basename = [], geotransform = [], projection = [], data = [],
       data_type = dt, total_height = 0, total_width = 0, view_height = 0,
       view_width = 0, view_xoff = 0, view_yoff = 0, num_data_cells = - 1,
       no_data = nd \<rparr>"

text \<open>
  \<^verbatim>\<open>resize\<close> clears the vector and then calls \<^verbatim>\<open>data.resize(width*height,val)\<close>. The
  product is an \<^verbatim>\<open>int\<close>; its conversion to \<^verbatim>\<open>size_t\<close> makes a negative product a size
  beyond \<^verbatim>\<open>max_size()\<close>, and the vector throws \<^verbatim>\<open>std::length_error\<close>: the object is
  left with an empty vector and the extents it had. Otherwise the extents are
  assigned. Running out of memory is not modelled.
\<close>

definition resize ::
  "int \<Rightarrow> int \<Rightarrow> 'a \<Rightarrow> ('a, 'd) Array2D \<Rightarrow> ('a, 'd) Array2D result" where
  "resize width height val a =
     (if wrap32 (width * height) < 0 then Throws LengthError (a\<lparr> data := [] \<rparr>)
      else Ok (a\<lparr> data := replicate (nat (wrap32 (width * height))) val,
                  total_height := height, view_height := height,
                  total_width := width, view_width := width \<rparr>))"

text \<open>
  The constructor \<^verbatim>\<open>Array2D(width,height,val)\<close>; when it throws there is no object, and
  the state in \<open>Throws\<close> is that of the object given up.
\<close>

definition Array2D_sized ::
  "int \<Rightarrow> int \<Rightarrow> 'a \<Rightarrow> 'a \<Rightarrow> GDALDataType \<Rightarrow> ('a, 'd) Array2D result" where
  "Array2D_sized width height val nd dt = resize width height val (Array2D_default nd dt)"

definition resize_like ::
  "('u, 'd) Array2D \<Rightarrow> 'a \<Rightarrow> ('a, 'd) Array2D \<Rightarrow> ('a, 'd) Array2D result" where
  "resize_like other val a =
     (case resize (view_width other) (view_height other) val a of
        Ok a' \<Rightarrow> Ok (a'\<lparr> geotransform := geotransform other \<rparr>)
      | Throws e a' \<Rightarrow> Throws e a'
      | Fails e \<Rightarrow> Fails e)"

definition setNoData :: "'a \<Rightarrow> ('a, 'd) Array2D \<Rightarrow> ('a, 'd) Array2D" where
  "setNoData ndval a = a\<lparr> no_data := ndval \<rparr>"

definition setAll :: "'a \<Rightarrow> ('a, 'd) Array2D \<Rightarrow> ('a, 'd) Array2D" where
  "setAll val a = a\<lparr> data := map (\<lambda>_. val) (data a) \<rparr>"


function setRow_loop :: "int \<Rightarrow> int \<Rightarrow> 'a \<Rightarrow> int \<Rightarrow> 'a list \<Rightarrow> error + 'a list" where
  "setRow_loop vw y val x d =
     (if x < vw then
        (case store_cell d (wrap32 (wrap32 (y * vw) + x)) val of
           Inl e \<Rightarrow> Inl e
         | Inr d' \<Rightarrow> setRow_loop vw y val (x + 1) d')
      else Inr d)"
  by pat_completeness auto
termination
  by (relation "measure (\<lambda>(vw, y, val, x, d). nat (vw - x))") auto

declare setRow_loop.simps [simp del]

definition setRow :: "int \<Rightarrow> 'a \<Rightarrow> ('a, 'd) Array2D \<Rightarrow> error + ('a, 'd) Array2D" where
  "setRow y val a =
     (case setRow_loop (view_width a) y val 0 (data a) of
        Inl e \<Rightarrow> Inl e
      | Inr d \<Rightarrow> Inr (a\<lparr> data := d \<rparr>))"

function setCol_loop ::
  "int \<Rightarrow> int \<Rightarrow> int \<Rightarrow> 'a \<Rightarrow> int \<Rightarrow> 'a list \<Rightarrow> error + 'a list" where
  "setCol_loop vw vh x val y d =
     (if y < vh then
        (case store_cell d (wrap32 (wrap32 (y * vw) + x)) val of
           Inl e \<Rightarrow> Inl e
         | Inr d' \<Rightarrow> setCol_loop vw vh x val (y + 1) d')
      else Inr d)"
  by pat_completeness auto
termination
  by (relation "measure (\<lambda>(vw, vh, x, val, y, d). nat (vh - y))") auto

declare setCol_loop.simps [simp del]

definition setCol :: "int \<Rightarrow> 'a \<Rightarrow> ('a, 'd) Array2D \<Rightarrow> error + ('a, 'd) Array2D" where
  "setCol x val a =
     (case setCol_loop (view_width a) (view_height a) x val 0 (data a) of
        Inl e \<Rightarrow> Inl e
      | Inr d \<Rightarrow> Inr (a\<lparr> data := d \<rparr>))"

definition clear :: "('a, 'd) Array2D \<Rightarrow> ('a, 'd) Array2D" where
  "clear a = a\<lparr> data := [] \<rparr>"

text \<open>
  \<^verbatim>\<open>operator()(int i)\<close> and \<^verbatim>\<open>operator()(int x, int y)\<close>: the asserted bounds, then the
  unchecked vector access. The non-const overloads return a reference; \<open>set_i\<close> and
  \<open>set_xy\<close> are an assignment through it.
\<close>

definition get_i :: "('a, 'd) Array2D \<Rightarrow> int \<Rightarrow> error + 'a" where
  "get_i a i =
     (if \<not> (i \<ge> 0) then Inl AssertionFailed
      else if \<not> (i < wrap32 (view_width a * view_height a)) then Inl AssertionFailed
      else load_cell (data a) i)"

definition set_i :: "int \<Rightarrow> 'a \<Rightarrow> ('a, 'd) Array2D \<Rightarrow> error + ('a, 'd) Array2D" where
  "set_i i v a =
     (if \<not> (i \<ge> 0) then Inl AssertionFailed
      else if \<not> (i < wrap32 (view_width a * view_height a)) then Inl AssertionFailed
      else case store_cell (data a) i v of
             Inl e \<Rightarrow> Inl e
           | Inr d \<Rightarrow> Inr (a\<lparr> data := d \<rparr>))"

definition get_xy :: "('a, 'd) Array2D \<Rightarrow> int \<Rightarrow> int \<Rightarrow> error + 'a" where
  "get_xy a x y =
     (if \<not> (x \<ge> 0) then Inl AssertionFailed
      else if \<not> (y \<ge> 0) then Inl AssertionFailed
      else if \<not> (x < view_width a) then Inl AssertionFailed
      else if \<not> (y < view_height a) then Inl AssertionFailed
      else load_cell (data a) (xyToI a x y))"

definition set_xy :: "int \<Rightarrow> int \<Rightarrow> 'a \<Rightarrow> ('a, 'd) Array2D \<Rightarrow> error + ('a, 'd) Array2D" where
  "set_xy x y v a =
     (if \<not> (x \<ge> 0) then Inl AssertionFailed
      else if \<not> (y \<ge> 0) then Inl AssertionFailed
      else if \<not> (x < view_width a) then Inl AssertionFailed
      else if \<not> (y < view_height a) then Inl AssertionFailed
      else case store_cell (data a) (xyToI a x y) v of
             Inl e \<Rightarrow> Inl e
           | Inr d \<Rightarrow> Inr (a\<lparr> data := d \<rparr>))"

subsection \<open>Counting data cells\<close>

fun countDataCells_loop :: "'a \<Rightarrow> 'a list \<Rightarrow> int \<Rightarrow> int" where
  "countDataCells_loop nd [] n = n"
| "countDataCells_loop nd (i # rest) n =
     countDataCells_loop nd rest (if i \<noteq> nd then n + 1 else n)"

definition countDataCells :: "('a, 'd) Array2D \<Rightarrow> ('a, 'd) Array2D" where
  "countDataCells a = a\<lparr> num_data_cells := countDataCells_loop (no_data a) (data a) 0 \<rparr>"

text \<open>The non-const \<^verbatim>\<open>numDataCells()\<close>: the value returned and the array afterwards.\<close>

definition numDataCells :: "('a, 'd) Array2D \<Rightarrow> int \<times> ('a, 'd) Array2D" where
  "numDataCells a =
     (let a' = (if num_data_cells a = - 1 then countDataCells a else a)
      in (num_data_cells a', a'))"

definition numDataCells_const :: "('a, 'd) Array2D \<Rightarrow> int" where
  "numDataCells_const a = num_data_cells a"

subsection \<open>Equality\<close>

text \<open>
  The templated \<^verbatim>\<open>operator=(const Array2D<U>&)\<close> is declared to return \<^verbatim>\<open>T&\<close> and
  returns \<^verbatim>\<open>*this\<close>: it is ill-formed wherever it is instantiated, so no program
  calls it and it has no embedding. An assignment between arrays of one element type
  is the implicit copy assignment, which copies every member.

  \<^verbatim>\<open>operator==\<close>: \<open>ne\<close> is the \<^verbatim>\<open>!=\<close> of the element type.
\<close>

function equal_loop ::
  "('a \<Rightarrow> 'a \<Rightarrow> bool) \<Rightarrow> 'a list \<Rightarrow> 'a list \<Rightarrow> int \<Rightarrow> int \<Rightarrow> error + bool" where
  "equal_loop ne d1 d2 n i =
     (if i < n then
        (case load_cell d1 i of
           Inl e \<Rightarrow> Inl e
         | Inr v1 \<Rightarrow>
             (case load_cell d2 i of
                Inl e \<Rightarrow> Inl e
              | Inr v2 \<Rightarrow> if ne v1 v2 then Inr False else equal_loop ne d1 d2 n (i + 1)))
      else Inr True)"
  by pat_completeness auto
termination
  by (relation "measure (\<lambda>(ne, d1, d2, n, i). nat (n - i))") auto

declare equal_loop.simps [simp del]

definition equal_op ::
  "('a \<Rightarrow> 'a \<Rightarrow> bool) \<Rightarrow> ('a, 'd) Array2D \<Rightarrow> ('a, 'd) Array2D \<Rightarrow> error + bool" where
  "equal_op ne a other =
     (if view_width a \<noteq> view_width other \<or> view_height a \<noteq> view_height other
      then Inr False
      else if ne (no_data a) (no_data other) then Inr False
      else equal_loop ne (data a) (data other) (wrap32 (view_width a * view_height a)) 0)"

text \<open>
  The values of a floating-point element type as far as comparison goes: not a number,
  or a number. \<^verbatim>\<open>!=\<close> is true whenever an operand is not a number.
\<close>

datatype fp = NaN | Num real

fun fp_ne :: "fp \<Rightarrow> fp \<Rightarrow> bool" where
  "fp_ne (Num x) (Num y) = (x \<noteq> y)"
| "fp_ne _ _ = True"

text \<open>
  The \<^verbatim>\<open>!=\<close> of an element type on which it is the negation of identity, as on the
  integer types.
\<close>

definition id_ne :: "'a \<Rightarrow> 'a \<Rightarrow> bool" where
  "id_ne x y = (x \<noteq> y)"

definition isNoData :: "('a, 'd) Array2D \<Rightarrow> int \<Rightarrow> int \<Rightarrow> error + bool" where
  "isNoData a x y =
     (case load_cell (data a) (xyToI a x y) of
        Inl e \<Rightarrow> Inl e
      | Inr v \<Rightarrow> Inr (v = no_data a))"

subsection \<open>The native file format\<close>

text \<open>
  A file is its sequence of bytes. \<^verbatim>\<open>write\<close> appends the object representation of
  what it is given, \<^verbatim>\<open>read\<close> consumes as many bytes. An \<^verbatim>\<open>int\<close> is four bytes in two's
  complement, least significant byte first (the host's order; the same function
  writes and reads). The object representation of the element type \<^verbatim>\<open>T\<close> is a
  parameter: its size and the two directions of \<^verbatim>\<open>reinterpret_cast\<close>.
\<close>

type_synonym byte = "8 word"

definition int_bytes :: "int \<Rightarrow> byte list" where
  "int_bytes x =
     (let n = x mod 2 ^ 32
      in [word_of_int (n mod 256), word_of_int (n div 256 mod 256),
          word_of_int (n div 65536 mod 256), word_of_int (n div 16777216 mod 256)])"

definition bytes_int :: "byte list \<Rightarrow> int" where
  "bytes_int bs =
     (let n = foldr (\<lambda>b acc. uint b + 256 * acc) bs 0
      in if n < 2 ^ 31 then n else n - 2 ^ 32)"

record 'a T_repr =
  sizeof_T :: nat
  T_bytes :: "'a \<Rightarrow> byte list"
  bytes_T :: "byte list \<Rightarrow> 'a"

definition uint8_repr :: "byte T_repr" where
  "uint8_repr = \<lparr> sizeof_T = 1, T_bytes = (\<lambda>v. [v]), bytes_T = hd \<rparr>"

text \<open>
  The files of the host, and which names can be opened for writing.
\<close>

record filesystem =
  files :: "string \<rightharpoonup> byte list"
  writable :: "string \<Rightarrow> bool"

function saveNative_rows ::
  "'a T_repr \<Rightarrow> 'a list \<Rightarrow> int \<Rightarrow> int \<Rightarrow> int \<Rightarrow> byte list \<Rightarrow> error + byte list" where
  "saveNative_rows R d vw vh y fout =
     (if y < vh then
        (case read_cells d (y * vw) vw of
           Inl e \<Rightarrow> Inl e
         | Inr cells \<Rightarrow>
             saveNative_rows R d vw vh (y + 1) (fout @ concat (map (T_bytes R) cells)))
      else Inr fout)"
  by pat_completeness auto
termination
  by (relation "measure (\<lambda>(R, d, vw, vh, y, fout). nat (vh - y))") auto

declare saveNative_rows.simps [simp del]

text \<open>
  \<^verbatim>\<open>saveNative\<close>: a stream that did not open fails the assertion.
\<close>

definition saveNative ::
  "'a T_repr \<Rightarrow> filesystem \<Rightarrow> string \<Rightarrow> ('a, 'd) Array2D \<Rightarrow> error + filesystem" where
  "saveNative R fs fname a =
     (if \<not> writable fs fname then Inl AssertionFailed
      else
        let fout = int_bytes (total_height a) @ int_bytes (total_width a)
                 @ int_bytes (view_height a) @ int_bytes (view_width a)
                 @ int_bytes (view_xoff a) @ int_bytes (view_yoff a)
                 @ int_bytes (num_data_cells a) @ T_bytes R (no_data a)
        in case saveNative_rows R (data a) (view_width a) (view_height a) 0 fout of
             Inl e \<Rightarrow> Inl e
           | Inr fout' \<Rightarrow> Inr (fs\<lparr> files := (files fs)(fname \<mapsto> fout') \<rparr>))"

text \<open>
  Reading. The state of the stream is the bytes not yet consumed and whether the
  stream is good. \<^verbatim>\<open>fin.read(dest, n)\<close> on a good stream stores the next \<open>n\<close> bytes;
  when fewer are left it stores those and the stream fails; a stream that has failed
  stores nothing. \<open>istream_read\<close> gives the bytes stored. The source never tests the
  stream: the bytes of the destination that are not stored over stay as they were.
\<close>

record istream =
  pending :: "byte list"
  stream_good :: bool

definition istream_read :: "nat \<Rightarrow> istream \<Rightarrow> byte list \<times> istream" where
  "istream_read n s =
     (if \<not> stream_good s then ([], s)
      else if n \<le> length (pending s)
      then (take n (pending s), s\<lparr> pending := drop n (pending s) \<rparr>)
      else (pending s, s\<lparr> pending := [], stream_good := False \<rparr>))"

definition read_int :: "int \<Rightarrow> istream \<Rightarrow> int \<times> istream" where
  "read_int v fin =
     (let (stored, fin') = istream_read 4 fin
      in (if stored = [] then v
          else bytes_int (stored @ drop (length stored) (int_bytes v)), fin'))"

definition read_T :: "'a T_repr \<Rightarrow> 'a \<Rightarrow> istream \<Rightarrow> 'a \<times> istream" where
  "read_T R v fin =
     (let (stored, fin') = istream_read (sizeof_T R) fin
      in (if stored = [] then v
          else bytes_T R (stored @ drop (length stored) (T_bytes R v)), fin'))"

fun decode_cells :: "'a T_repr \<Rightarrow> nat \<Rightarrow> byte list \<Rightarrow> 'a list" where
  "decode_cells R 0 bs = []"
| "decode_cells R (Suc n) bs =
     bytes_T R (take (sizeof_T R) bs) # decode_cells R n (drop (sizeof_T R) bs)"

text \<open>
  A read into a run of cells: the cells that received a byte are read from their
  bytes (the last of them may have received only some), the others stay.
\<close>

definition read_row :: "'a T_repr \<Rightarrow> 'a list \<Rightarrow> istream \<Rightarrow> 'a list \<times> istream" where
  "read_row R old fin =
     (let (stored, fin') = istream_read (length old * sizeof_T R) fin;
          touched = (length stored + sizeof_T R - 1) div sizeof_T R;
          bytes = stored @ drop (length stored) (concat (map (T_bytes R) old))
      in (decode_cells R touched bytes @ drop touched old, fin'))"

text \<open>
  The rows of \<^verbatim>\<open>loadNative\<close>. A row that is not inside the vector is an access outside
  it.
\<close>

function loadNative_rows ::
  "'a T_repr \<Rightarrow> int \<Rightarrow> int \<Rightarrow> int \<Rightarrow> istream \<Rightarrow> 'a list \<Rightarrow> error + 'a list" where
  "loadNative_rows R vw vh y fin d =
     (if y < vh then
        (case read_cells d (y * vw) vw of
           Inl e \<Rightarrow> Inl e
         | Inr old \<Rightarrow>
             (case read_row R old fin of
                (cells, fin') \<Rightarrow>
                  (case write_cells d (y * vw) cells of
                     Inl e \<Rightarrow> Inl e
                   | Inr d' \<Rightarrow> loadNative_rows R vw vh (y + 1) fin' d')))
      else Inr d)"
  by pat_completeness auto
termination
  by (relation "measure (\<lambda>(R, vw, vh, y, fin, d). nat (vh - y))") auto

declare loadNative_rows.simps [simp del]

definition read_header ::
  "'a T_repr \<Rightarrow> istream \<Rightarrow> ('a, 'd) Array2D \<Rightarrow> ('a, 'd) Array2D \<times> istream" where
  "read_header R fin0 a =
     (let (th, fin1) = read_int (total_height a) fin0;
          (tw, fin2) = read_int (total_width a) fin1;
          (vh, fin3) = read_int (view_height a) fin2;
          (vw, fin4) = read_int (view_width a) fin3;
          (xo, fin5) = read_int (view_xoff a) fin4;
          (yo, fin6) = read_int (view_yoff a) fin5;
          (ndc, fin7) = read_int (num_data_cells a) fin6;
          (nd, fin8) = read_T R (no_data a) fin7
      in (a\<lparr> total_height := th, total_width := tw, view_height := vh,
             view_width := vw, view_xoff := xo, view_yoff := yo,
             num_data_cells := ndc, no_data := nd \<rparr>, fin8))"

text \<open>
  \<^verbatim>\<open>loadNative\<close>: the assertion fails on a file that does not open; the header is
  read, the array is resized by the extents read, and the rows are read.
\<close>

definition loadNative ::
  "'a::zero T_repr \<Rightarrow> filesystem \<Rightarrow> string \<Rightarrow> ('a, 'd) Array2D \<Rightarrow> ('a, 'd) Array2D result" where
  "loadNative R fs fname a =
     (case files fs fname of
        None \<Rightarrow> Fails AssertionFailed
      | Some bytes \<Rightarrow>
          (case read_header R \<lparr> pending = bytes, stream_good = True \<rparr> a of
             (a1, fin) \<Rightarrow>
               (case resize (view_width a1) (view_height a1) 0 a1 of
                  Throws e a2 \<Rightarrow> Throws e a2
                | Fails e \<Rightarrow> Fails e
                | Ok a2 \<Rightarrow>
                    (case loadNative_rows R (view_width a2) (view_height a2) 0 fin (data a2) of
                       Inl e \<Rightarrow> Fails e
                     | Inr d \<Rightarrow> Ok (a2\<lparr> data := d \<rparr>)))))"


subsection \<open>The raster library\<close>

text \<open>
  GDAL is not part of the repository. An opened dataset is given by what the calls
  made on it return: \<open>None\<close> where a call does not return \<^verbatim>\<open>CE_None\<close>.
  \<open>RasterIO_Read ds xoff y w\<close> is \<^verbatim>\<open>band->RasterIO(GF_Read, xoff, y, w, 1, ...)\<close>, the
  cells it stores into the buffer. \<open>GetNoDataValue\<close> is the value after its conversion
  to \<^verbatim>\<open>T\<close>.
\<close>

record ('a, 'd) GDALDataset =
  GetGeoTransform :: "'d list option"
  GetProjectionRef :: string
  GetRasterDataType :: GDALDataType
  GetXSize :: int
  GetYSize :: int
  GetNoDataValue :: 'a
  RasterIO_Read :: "int \<Rightarrow> int \<Rightarrow> int \<Rightarrow> 'a list option"

text \<open>
  A dataset over a grid of pixels in row-major order. Its row read follows the
  library's contract: a window of no width is skipped, a window that leaves the raster
  is refused.
\<close>

definition raster_RasterIO ::
  "int \<Rightarrow> int \<Rightarrow> 'a list \<Rightarrow> int \<Rightarrow> int \<Rightarrow> int \<Rightarrow> 'a list option" where
  "raster_RasterIO xsize ysize pixels xoff y w =
     (if w < 1 then Some []
      else if xoff < 0 \<or> xoff + w > xsize \<or> y < 0 \<or> y + 1 > ysize then None
      else Some (take (nat w) (drop (nat (y * xsize + xoff)) pixels)))"

definition raster_dataset ::
  "int \<Rightarrow> int \<Rightarrow> 'a list \<Rightarrow> 'a \<Rightarrow> 'd list \<Rightarrow> string \<Rightarrow> GDALDataType \<Rightarrow> ('a, 'd) GDALDataset" where
  "raster_dataset xsize ysize pixels nd gt proj dt =
     \<lparr> GetGeoTransform = Some gt, GetProjectionRef = proj, GetRasterDataType = dt,
       GetXSize = xsize, GetYSize = ysize, GetNoDataValue = nd,
       RasterIO_Read = raster_RasterIO xsize ysize pixels \<rparr>"

text \<open>
  The window of \<^verbatim>\<open>loadGDAL\<close>: the same statements compute the width from
  \<^verbatim>\<open>(total_width, xOffset, part_width)\<close> and the height from
  \<^verbatim>\<open>(total_height, yOffset, part_height)\<close>.
\<close>

definition loadGDAL_part :: "int \<Rightarrow> int \<Rightarrow> int \<Rightarrow> int" where
  "loadGDAL_part total_size offset part =
     (let part1 = (if offset + part \<ge> total_size then total_size - offset else part)
      in if part1 = 0 then total_size else part1)"

function loadGDAL_rows ::
  "('a, 'd) GDALDataset \<Rightarrow> int \<Rightarrow> int \<Rightarrow> int \<Rightarrow> int \<Rightarrow> int \<Rightarrow> 'a list
   \<Rightarrow> error + 'a list" where
  "loadGDAL_rows ds xOffset yOffset vw vh y d =
     (if y < yOffset + vh then
        (case RasterIO_Read ds xOffset y vw of
           None \<Rightarrow> Inl ReadError
         | Some cells \<Rightarrow>
             (case write_cells d ((y - yOffset) * vw) cells of
                Inl e \<Rightarrow> Inl e
              | Inr d' \<Rightarrow> loadGDAL_rows ds xOffset yOffset vw vh (y + 1) d'))
      else Inr d)"
  by pat_completeness auto
termination
  by (relation "measure (\<lambda>(ds, xOffset, yOffset, vw, vh, y, d). nat (yOffset + vh - y))") auto

declare loadGDAL_rows.simps [simp del]

text \<open>
  \<open>fin\<close> is what \<^verbatim>\<open>GDALOpen\<close> returned: \<open>None\<close> for \<^verbatim>\<open>NULL\<close>. \<^verbatim>\<open>loadGDAL\<close> is private and
  called by the constructor only: when it throws there is no object.
\<close>

definition loadGDAL ::
  "('a::zero, 'd) GDALDataset option \<Rightarrow> int \<Rightarrow> int \<Rightarrow> int \<Rightarrow> int \<Rightarrow> ('a, 'd) Array2D
   \<Rightarrow> error + ('a, 'd) Array2D" where
  "loadGDAL fin xOffset yOffset part_width part_height a =
     (if \<not> empty_Array2D a then Inl AssertionFailed
      else if \<not> (xOffset \<ge> 0) then Inl AssertionFailed
      else if \<not> (yOffset \<ge> 0) then Inl AssertionFailed
      else case fin of
        None \<Rightarrow> Inl CouldNotOpen
      | Some ds \<Rightarrow>
          (case GetGeoTransform ds of
             None \<Rightarrow> Inl GeotransformError
           | Some gt \<Rightarrow>
               let a1 = a\<lparr> geotransform := gt,
                           projection := GetProjectionRef ds,
                           data_type := GetRasterDataType ds,
                           total_width := GetXSize ds,
                           total_height := GetYSize ds,
                           no_data := GetNoDataValue ds \<rparr>;
                   a2 = a1\<lparr> view_width := loadGDAL_part (total_width a1) xOffset part_width,
                            view_height := loadGDAL_part (total_height a1) yOffset part_height,
                            view_xoff := xOffset,
                            view_yoff := yOffset \<rparr>
               in case resize (view_width a2) (view_height a2) 0 a2 of
                    Throws e a3 \<Rightarrow> Inl e
                  | Fails e \<Rightarrow> Inl e
                  | Ok a3 \<Rightarrow>
                      (case loadGDAL_rows ds xOffset yOffset (view_width a3) (view_height a3)
                              yOffset (data a3) of
                         Inl e \<Rightarrow> Inl e
                       | Inr d \<Rightarrow> Inr (a3\<lparr> data := d \<rparr>))))"

text \<open>
  \<^verbatim>\<open>NativeTypeToGDAL<T>()\<close> inspects \<^verbatim>\<open>typeid(T)\<close>: the element type is named by a
  value here.
\<close>

datatype NativeType =
  T_uint8 | T_uint16 | T_int16 | T_uint32 | T_int32 | T_float | T_double | T_other

fun NativeTypeToGDAL :: "NativeType \<Rightarrow> error + GDALDataType" where
  "NativeTypeToGDAL T_uint8 = Inr GDT_Byte"
| "NativeTypeToGDAL T_uint16 = Inr GDT_UInt16"
| "NativeTypeToGDAL T_int16 = Inr GDT_Int16"
| "NativeTypeToGDAL T_uint32 = Inr GDT_UInt32"
| "NativeTypeToGDAL T_int32 = Inr GDT_Int32"
| "NativeTypeToGDAL T_float = Inr GDT_Float32"
| "NativeTypeToGDAL T_double = Inr GDT_Float64"
| "NativeTypeToGDAL T_other = Inl AssertionFailed"

text \<open>The arithmetic of \<^verbatim>\<open>double\<close> that \<^verbatim>\<open>saveGDAL\<close> uses.\<close>

record 'd double_ops =
  d_add :: "'d \<Rightarrow> 'd \<Rightarrow> 'd"
  d_mul :: "'d \<Rightarrow> 'd \<Rightarrow> 'd"
  d_of_int :: "int \<Rightarrow> 'd"

text \<open>
  What the library is asked to create and is given, and how it answers: whether the
  GTiff driver is found, whether \<^verbatim>\<open>Create\<close> returns a dataset, and whether the write of
  row \<open>y\<close> returns \<^verbatim>\<open>CE_None\<close>.
\<close>

record GDALDriver =
  driver_found :: bool
  Create_ok :: "string \<Rightarrow> bool"
  RasterIO_Write_ok :: "int \<Rightarrow> bool"

record ('a, 'd) GDALOutput =
  out_filename :: string
  out_width :: int
  out_height :: int
  out_type :: GDALDataType
  out_no_data :: 'a
  out_geotransform :: "'d list"
  out_projection :: string
  out_rows :: "'a list list"

function saveGDAL_rows ::
  "GDALDriver \<Rightarrow> 'a list \<Rightarrow> int \<Rightarrow> int \<Rightarrow> int \<Rightarrow> 'a list list \<Rightarrow> error + 'a list list" where
  "saveGDAL_rows drv d vw vh y rows =
     (if y < vh then
        (case read_cells d (y * vw) vw of
           Inl e \<Rightarrow> Inl e
         | Inr cells \<Rightarrow>
             if \<not> RasterIO_Write_ok drv y then Inl WriteError
             else saveGDAL_rows drv d vw vh (y + 1) (rows @ [cells]))
      else Inr rows)"
  by pat_completeness auto
termination
  by (relation "measure (\<lambda>(drv, d, vw, vh, y, rows). nat (vh - y))") auto

declare saveGDAL_rows.simps [simp del]

text \<open>
  \<^verbatim>\<open>saveGDAL\<close>. The geotransform is indexed at 0, 1, 3 and 5 and handed to the library
  as six values: a vector of fewer than six is an access outside it.
\<close>

definition saveGDAL ::
  "GDALDriver \<Rightarrow> NativeType \<Rightarrow> 'd double_ops \<Rightarrow> string \<Rightarrow> int \<Rightarrow> int \<Rightarrow> ('a, 'd) Array2D
   \<Rightarrow> error + ('a, 'd) GDALOutput" where
  "saveGDAL drv T ops fname xoffset yoffset a =
     (if \<not> driver_found drv then Inl DriverError
      else case NativeTypeToGDAL T of
        Inl e \<Rightarrow> Inl e
      | Inr ty \<Rightarrow>
          if \<not> Create_ok drv fname then Inl CouldNotOpen
          else if length (geotransform a) < 6 then Inl OutOfBounds
          else
            let out_gt0 = geotransform a;
                out_gt1 = out_gt0[0 := d_add ops (out_gt0 ! 0)
                                     (d_mul ops (d_of_int ops xoffset) (geotransform a ! 1))];
                out_gt2 = out_gt1[3 := d_add ops (out_gt1 ! 3)
                                     (d_mul ops (d_of_int ops yoffset) (geotransform a ! 5))]
            in case saveGDAL_rows drv (data a) (view_width a) (view_height a) 0 [] of
                 Inl e \<Rightarrow> Inl e
               | Inr rows \<Rightarrow>
                   Inr \<lparr> out_filename = fname, out_width = view_width a,
                         out_height = view_height a, out_type = ty,
                         out_no_data = no_data a, out_geotransform = take 6 out_gt2,
                         out_projection = projection a, out_rows = rows \<rparr>)"

subsection \<open>Invariants and reference notions\<close>

text \<open>The buffer holds \<^verbatim>\<open>view_width*view_height\<close> cells.\<close>

definition buffer_inv :: "('a, 'd) Array2D \<Rightarrow> bool" where
  "buffer_inv a = (int (length (data a)) = view_width a * view_height a)"


definition header_int32 :: "('a, 'd) Array2D \<Rightarrow> bool" where
  "header_int32 a =
     (int32 (total_height a) \<and> int32 (total_width a) \<and> int32 (view_height a)
      \<and> int32 (view_width a) \<and> int32 (view_xoff a) \<and> int32 (view_yoff a)
      \<and> int32 (num_data_cells a))"

text \<open>
  An object representation: every value takes \<open>sizeof_T\<close> bytes, at least one, and the
  bytes of a value read back as that value.
\<close>

definition repr_ok :: "'a T_repr \<Rightarrow> bool" where
  "repr_ok R =
     (0 < sizeof_T R \<and> (\<forall>v. length (T_bytes R v) = sizeof_T R \<and> bytes_T R (T_bytes R v) = v))"

text \<open>The count by brute force: the cells of the buffer that differ from \<^verbatim>\<open>no_data\<close>.\<close>

definition brute_force_count :: "('a, 'd) Array2D \<Rightarrow> int" where
  "brute_force_count a = int (length (filter (\<lambda>v. v \<noteq> no_data a) (data a)))"

subsection \<open>Example arrays\<close>

text \<open>A view of three columns and three rows of zeros.\<close>

definition grid_3x3 :: "(int, real) Array2D" where
  "grid_3x3 =
     \<lparr> filename = [], basename = [], geotransform = [], projection = [],
       data = [0, 0, 0, 0, 0, 0, 0, 0, 0],
       data_type = GDT_Int32, total_height = 3, total_width = 3, view_height = 3,
       view_width = 3, view_xoff = 0, view_yoff = 0, num_data_cells = - 1,
       no_data = - 1 \<rparr>"

text \<open>A view of two columns and one row of zeros, not yet counted.\<close>

definition grid_2x1 :: "(int, real) Array2D" where
  "grid_2x1 =
     \<lparr> filename = [], basename = [], geotransform = [], projection = [],
       data = [0, 0],
       data_type = GDT_Int32, total_height = 1, total_width = 2, view_height = 1,
       view_width = 2, view_xoff = 0, view_yoff = 0, num_data_cells = - 1,
       no_data = - 1 \<rparr>"

text \<open>
  A view of two columns and one row over 32-bit cells, counted: both cells differ from
  the no-data value 0.
\<close>

definition wide_2x1 :: "(32 word, real) Array2D" where
  "wide_2x1 =
     \<lparr> filename = [], basename = [], geotransform = [1, 2, 0, 3, 0, 4], projection = [],
       data = [1, 256],
       data_type = GDT_UInt32, total_height = 1, total_width = 2, view_height = 1,
       view_width = 2, view_xoff = 3, view_yoff = 4, num_data_cells = 2,
       no_data = 0 \<rparr>"

text \<open>
  Two views of two columns and two rows with the same cells and no-data value, cut at
  different offsets from parents of different extents, and a third that differs from the
  first in its no-data value only.
\<close>

definition window_a :: "(int, real) Array2D" where
  "window_a =
     \<lparr> filename = [], basename = [], geotransform = [0, 1, 0, 0, 0, - 1], projection = [],
       data = [1, 2, 3, 4],
       data_type = GDT_Int32, total_height = 10, total_width = 10, view_height = 2,
       view_width = 2, view_xoff = 0, view_yoff = 0, num_data_cells = - 1,
       no_data = - 9999 \<rparr>"

definition window_b :: "(int, real) Array2D" where
  "window_b =
     \<lparr> filename = [], basename = [], geotransform = [100, 2, 0, 50, 0, - 2], projection = [],
       data = [1, 2, 3, 4],
       data_type = GDT_Int32, total_height = 20, total_width = 30, view_height = 2,
       view_width = 2, view_xoff = 5, view_yoff = 7, num_data_cells = 4,
       no_data = - 9999 \<rparr>"

definition window_c :: "(int, real) Array2D" where
  "window_c = window_a\<lparr> no_data := 0 \<rparr>"

text \<open>
  The arithmetic of the reals in place of that of \<^verbatim>\<open>double\<close>, and a driver that
  creates every dataset and writes every row.
\<close>

definition real_ops :: "real double_ops" where
  "real_ops = \<lparr> d_add = (+), d_mul = (*), d_of_int = of_int \<rparr>"

definition gtiff_driver :: GDALDriver where
  "gtiff_driver =
     \<lparr> driver_found = True, Create_ok = (\<lambda>_. True), RasterIO_Write_ok = (\<lambda>_. True) \<rparr>"

text \<open>
  A raster of three columns and three rows of bytes, a raster of ten columns and one
  row, and the view of two columns and two rows that \<^verbatim>\<open>loadGDAL\<close> cuts from the first
  at offset (1, 1); a host with no files on which every name can be written.
\<close>

definition raster_3x3 :: "(byte, real) GDALDataset" where
  "raster_3x3 =
     raster_dataset 3 3 [1, 2, 3, 4, 5, 6, 7, 8, 9] 255 [0, 1, 0, 0, 0, - 1]
       ''EPSG:4326'' GDT_Byte"

definition raster_10x1 :: "(byte, real) GDALDataset" where
  "raster_10x1 =
     raster_dataset 10 1 [0, 1, 2, 3, 4, 5, 6, 7, 8, 9] 255 [0, 1, 0, 0, 0, - 1]
       ''EPSG:4326'' GDT_Byte"

definition tile_2x2 :: "(byte, real) Array2D" where
  "tile_2x2 =
     \<lparr> filename = [], basename = [], geotransform = [0, 1, 0, 0, 0, - 1],
       projection = ''EPSG:4326'', data = [5, 6, 8, 9],
       data_type = GDT_Byte, total_height = 2, total_width = 2, view_height = 2,
       view_width = 2, view_xoff = 1, view_yoff = 1, num_data_cells = - 1,
       no_data = 255 \<rparr>"

definition empty_disk :: filesystem where
  "empty_disk = \<lparr> files = Map.empty, writable = (\<lambda>_. True) \<rparr>"


text \<open>
  What \<^verbatim>\<open>Array2D(65536,65536)\<close> builds over bytes: the product of the extents is 0 in
  32 bits, so no cell is allocated.
\<close>

definition wide_view :: "(byte, real) Array2D" where
  "wide_view =
     \<lparr> filename = [], basename = [], geotransform = [], projection = [],
       data = [],
       data_type = GDT_Byte, total_height = 65536, total_width = 65536,
       view_height = 65536, view_width = 65536, view_xoff = 0, view_yoff = 0,
       num_data_cells = - 1, no_data = 255 \<rparr>"

text \<open>A view of one floating-point cell that is not a number.\<close>

definition nan_view :: "(fp, real) Array2D" where
  "nan_view =
     \<lparr> filename = [], basename = [], geotransform = [], projection = [],
       data = [NaN],
       data_type = GDT_Float32, total_height = 1, total_width = 1, view_height = 1,
       view_width = 1, view_xoff = 0, view_yoff = 0, num_data_cells = - 1,
       no_data = Num (- 9999) \<rparr>"

subsection \<open>The arrays that the interface builds\<close>



section \<open>Properties\<close>

subsection \<open>Division and 32-bit arithmetic\<close>

lemma c_div_nonneg: "0 \<le> a \<Longrightarrow> 0 < b \<Longrightarrow> c_div a b = a div b"
  by (cases "a = 0") (simp_all add: c_div_def)

lemma c_mod_nonneg: "0 \<le> a \<Longrightarrow> 0 < b \<Longrightarrow> c_mod a b = a mod b"
  by (cases "a = 0") (simp_all add: c_mod_def)

lemma c_div_mult_add_c_mod: "c_div a b * b + c_mod a b = a"
proof -
  have "c_div a b * b = sgn a * (\<bar>b\<bar> * (\<bar>a\<bar> div \<bar>b\<bar>))"
    by (simp add: c_div_def abs_sgn mult.commute mult.left_commute)
  then have "c_div a b * b + c_mod a b = sgn a * (\<bar>b\<bar> * (\<bar>a\<bar> div \<bar>b\<bar>) + \<bar>a\<bar> mod \<bar>b\<bar>)"
    by (simp only: c_mod_def distrib_left)
  also have "\<dots> = sgn a * \<bar>a\<bar>" by simp
  also have "\<dots> = a" by (simp add: mult_sgn_abs)
  finally show ?thesis .
qed

lemma c_mod_bounds: "0 \<le> a \<Longrightarrow> 0 \<le> c_mod a b \<and> c_mod a b \<le> a"
proof -
  assume a: "0 \<le> a"
  show ?thesis
  proof (cases "a = 0")
    case True
    then show ?thesis by (simp add: c_mod_def)
  next
    case False
    with a have "c_mod a b = a mod \<bar>b\<bar>" by (simp add: c_mod_def)
    moreover have "0 \<le> a mod \<bar>b\<bar>"
      by (cases "b = 0") (use a in simp_all)
    moreover have "a mod \<bar>b\<bar> \<le> a" using a by (rule zmod_le_nonneg_dividend)
    ultimately show ?thesis by simp
  qed
qed

lemma wrap32_id: "int32 x \<Longrightarrow> wrap32 x = x"
proof -
  assume "int32 x"
  then have "0 \<le> x + 2 ^ 31" "x + 2 ^ 31 < 2 ^ 32" by (simp_all add: int32_def)
  then have "(x + 2 ^ 31) mod 2 ^ 32 = x + 2 ^ 31" by (rule mod_pos_pos_trivial)
  then show ?thesis by (simp add: wrap32_def)
qed

lemma wrap32_nonneg_id: "0 \<le> x \<Longrightarrow> x < 2 ^ 31 \<Longrightarrow> wrap32 x = x"
  by (rule wrap32_id) (simp add: int32_def)


subsection \<open>Coordinate conversions\<close>

lemma xyToI_in_range:
  assumes "0 \<le> x" "x < view_width a" "0 \<le> y" "y < view_height a"
    "view_width a * view_height a < 2 ^ 31"
  shows "xyToI a x y = y * view_width a + x"
proof -
  have w: "0 < view_width a" using assms by linarith
  have yw: "0 \<le> y * view_width a" using assms w by simp
  have "(y + 1) * view_width a \<le> view_height a * view_width a"
    using assms w by (intro mult_right_mono) auto
  then have le: "y * view_width a + x < view_width a * view_height a"
    using assms by (simp add: algebra_simps)
  have "wrap32 (y * view_width a) = y * view_width a"
    using yw le assms by (intro wrap32_nonneg_id) auto
  moreover have "wrap32 (y * view_width a + x) = y * view_width a + x"
    using yw le assms by (intro wrap32_nonneg_id) auto
  ultimately show ?thesis by (simp add: xyToI_def)
qed

lemma iToxy_xyToI:
  assumes "0 \<le> x" "x < view_width a" "0 \<le> y" "y < view_height a"
    "view_width a * view_height a < 2 ^ 31"
  shows "iToxy a (xyToI a x y) = Some (x, y)"
proof -
  have w: "0 < view_width a" using assms by linarith
  have nn: "0 \<le> y * view_width a + x" using assms w by simp
  have "(y * view_width a + x) mod view_width a = x" using assms by simp
  moreover have "(y * view_width a + x) div view_width a = y" using assms w by simp
  ultimately show ?thesis using w nn xyToI_in_range [OF assms]
    by (simp add: iToxy_def c_div_nonneg c_mod_nonneg)
qed

lemma xyToI_iToxy:
  assumes "0 \<le> i" "i < view_width a * view_height a" "i < 2 ^ 31"
  shows "\<exists>x y. iToxy a i = Some (x, y) \<and> xyToI a x y = i"
proof -
  let ?w = "view_width a"
  have w: "?w \<noteq> 0" using assms by auto
  have e: "c_div i ?w * ?w + c_mod i ?w = i" by (rule c_div_mult_add_c_mod)
  have m: "0 \<le> c_mod i ?w" "c_mod i ?w \<le> i" using c_mod_bounds [OF assms(1)] by simp_all
  have p: "0 \<le> c_div i ?w * ?w" "c_div i ?w * ?w \<le> i" using e m by linarith+
  have "wrap32 (c_div i ?w * ?w) = c_div i ?w * ?w"
    using p assms by (intro wrap32_nonneg_id) auto
  moreover have "wrap32 i = i" using assms by (intro wrap32_nonneg_id) auto
  ultimately have "xyToI a (c_mod i ?w) (c_div i ?w) = i"
    using e by (simp add: xyToI_def)
  with w show ?thesis by (simp add: iToxy_def)
qed

text \<open>
  C8, as the code has it. Where the product of the view extents fits a 32-bit \<^verbatim>\<open>int\<close>:
  for \<open>0 \<le> x < view_width\<close> and \<open>0 \<le> y < view_height\<close>, \<^verbatim>\<open>iToxy\<close> of \<^verbatim>\<open>xyToI(x,y)\<close> is
  \<open>(x, y)\<close> and \<^verbatim>\<open>xyToI(x,y)\<close> is \<open>y*view_width + x\<close>. For every \<^verbatim>\<open>int\<close> \<open>i\<close> with
  \<open>0 \<le> i < view_width*view_height\<close>, \<^verbatim>\<open>xyToI\<close> of \<^verbatim>\<open>iToxy(i)\<close> is \<open>i\<close>.
\<close>

theorem iToxy_xyToI_inverse:
  "(0 \<le> x \<and> x < view_width a \<and> 0 \<le> y \<and> y < view_height a
      \<and> view_width a * view_height a < 2 ^ 31
      \<longrightarrow> iToxy a (xyToI a x y) = Some (x, y) \<and> xyToI a x y = y * view_width a + x)
   \<and> (0 \<le> i \<and> i < view_width a * view_height a \<and> i < 2 ^ 31
      \<longrightarrow> (\<exists>x' y'. iToxy a i = Some (x', y') \<and> xyToI a x' y' = i))"
  using iToxy_xyToI [of x a y] xyToI_in_range [of x a y] xyToI_iToxy [of i a] by blast

theorem iToxy_xyToI_inverse_witness:
  "iToxy grid_3x3 (xyToI grid_3x3 2 1) = Some (2, 1)
   \<and> xyToI grid_3x3 2 1 = 1 * view_width grid_3x3 + 2
   \<and> (\<exists>x' y'. iToxy grid_3x3 7 = Some (x', y') \<and> xyToI grid_3x3 x' y' = 7)"
proof -
  have "0 \<le> (2::int) \<and> 2 < view_width grid_3x3 \<and> 0 \<le> (1::int) \<and> 1 < view_height grid_3x3
      \<and> view_width grid_3x3 * view_height grid_3x3 < 2 ^ 31"
    by (simp add: grid_3x3_def)
  moreover have "0 \<le> (7::int) \<and> 7 < view_width grid_3x3 * view_height grid_3x3
      \<and> (7::int) < 2 ^ 31"
    by (simp add: grid_3x3_def)
  ultimately show ?thesis using iToxy_xyToI_inverse [of 2 grid_3x3 1 7] by blast
qed

text \<open>
  Where the product does not fit: \<^verbatim>\<open>Array2D(65536,65536)\<close> builds a view of 65536
  columns and 65536 rows, and the cell \<open>(0, 40000)\<close> of it, which is in range, does not
  convert back.
\<close>

lemma resize_wide_view:
  "resize 65536 65536 0 (Array2D_default 255 GDT_Byte) = Ok wide_view"
  by (simp add: resize_def wrap32_def Array2D_default_def wide_view_def)

theorem xyToI_overflows_on_wide_view:
  "Array2D_sized 65536 65536 0 255 GDT_Byte = Ok wide_view
   \<and> in_grid wide_view 0 40000
   \<and> xyToI wide_view 0 40000 = - 1673527296
   \<and> iToxy wide_view (xyToI wide_view 0 40000) = Some (0, - 25536)
   \<and> iToxy wide_view (xyToI wide_view 0 40000) \<noteq> Some (0, 40000)"
proof -
  have x: "xyToI wide_view 0 40000 = - 1673527296"
    by (simp add: xyToI_def wrap32_def wide_view_def)
  have i: "iToxy wide_view (- 1673527296) = Some (0, - 25536)"
    by (simp add: iToxy_def c_div_def c_mod_def wide_view_def)
  show ?thesis
    using x i resize_wide_view by (simp add: Array2D_sized_def in_grid_def wide_view_def)
qed

text \<open>
  Where the offset cell is at most one column right of the view and one row below it,
  as it is for the offsets to the eight neighbours of a cell, \<^verbatim>\<open>nToI\<close> agrees with
  \<^verbatim>\<open>in_grid\<close>.
\<close>

lemma nToI_within_one_step:
  assumes "0 \<le> i" "i < view_width a * view_height a" "0 < view_width a" "dx \<le> 1" "dy \<le> 1"
  shows "nToI a i dx dy =
     Some (if in_grid a (i mod view_width a + dx) (i div view_width a + dy)
           then xyToI a (i mod view_width a + dx) (i div view_width a + dy) else - 1)"
proof -
  let ?w = "view_width a"
  have x0: "0 \<le> i mod ?w" "i mod ?w < ?w" using assms(3) by simp_all
  have "i div ?w < view_height a"
  proof (rule ccontr)
    assume "\<not> i div ?w < view_height a"
    then have "view_height a * ?w \<le> (i div ?w) * ?w"
      using assms(3) by (intro mult_right_mono) simp_all
    also have "(i div ?w) * ?w = i - i mod ?w" by (simp only: minus_mod_eq_div_mult)
    also have "\<dots> \<le> i" using x0(1) by simp
    finally show False using assms(2) by (simp add: mult.commute)
  qed
  then have y0: "i div ?w + dy \<le> view_height a" using assms(5) by simp
  have x1: "i mod ?w + dx \<le> ?w" using x0 assms(4) by simp
  show ?thesis
    using x1 y0 assms(1,3)
    by (auto simp: nToI_def in_grid_def Let_def c_div_nonneg c_mod_nonneg)
qed

text \<open>
  C5. \<^verbatim>\<open>nToI\<close> tests the right and the bottom edge with \<^verbatim>\<open>==\<close>: from cell 2 of a view of
  three columns (\<open>x = 2\<close>, \<open>y = 0\<close>) the offset \<open>(2, 0)\<close> leads to \<open>x = 4\<close>, which is
  outside the view, and \<^verbatim>\<open>nToI\<close> returns the index 4 and not \<open>-1\<close>.
\<close>

theorem nToI_beyond_right_edge:
  "nToI grid_3x3 2 2 0 = Some 4 \<and> \<not> in_grid grid_3x3 (2 + 2) (0 + 0)"
  by (simp add: nToI_def in_grid_def grid_3x3_def xyToI_def c_div_def c_mod_def wrap32_def)

subsection \<open>The pixel buffer keeps its length\<close>

lemma store_cell_length: "store_cell d i v = Inr d' \<Longrightarrow> length d' = length d"
  by (auto simp: store_cell_def split: if_splits)

lemma write_cells_length: "write_cells d pos cells = Inr d' \<Longrightarrow> length d' = length d"
  by (auto simp: write_cells_def split: if_splits)

lemma setRow_loop_length: "setRow_loop vw y val x d = Inr d' \<Longrightarrow> length d' = length d"
proof (induction vw y val x d rule: setRow_loop.induct)
  case (1 vw y val x d)
  show ?case
  proof (cases "x < vw")
    case True
    with "1.prems" obtain d1
      where s: "store_cell d (wrap32 (wrap32 (y * vw) + x)) val = Inr d1"
      and r: "setRow_loop vw y val (x + 1) d1 = Inr d'"
      by (subst (asm) setRow_loop.simps) (auto split: sum.splits)
    from "1.IH" [OF True s r] store_cell_length [OF s] show ?thesis by simp
  next
    case False
    with "1.prems" show ?thesis by (subst (asm) setRow_loop.simps) simp
  qed
qed

lemma setCol_loop_length: "setCol_loop vw vh x val y d = Inr d' \<Longrightarrow> length d' = length d"
proof (induction vw vh x val y d rule: setCol_loop.induct)
  case (1 vw vh x val y d)
  show ?case
  proof (cases "y < vh")
    case True
    with "1.prems" obtain d1
      where s: "store_cell d (wrap32 (wrap32 (y * vw) + x)) val = Inr d1"
      and r: "setCol_loop vw vh x val (y + 1) d1 = Inr d'"
      by (subst (asm) setCol_loop.simps) (auto split: sum.splits)
    from "1.IH" [OF True s r] store_cell_length [OF s] show ?thesis by simp
  next
    case False
    with "1.prems" show ?thesis by (subst (asm) setCol_loop.simps) simp
  qed
qed

lemma loadNative_rows_length:
  "loadNative_rows R vw vh y fin d = Inr d' \<Longrightarrow> length d' = length d"
proof (induction R vw vh y fin d rule: loadNative_rows.induct)
  case (1 R vw vh y fin d)
  show ?case
  proof (cases "y < vh")
    case True
    with "1.prems" obtain old cells fin' d1
      where rc: "read_cells d (y * vw) vw = Inr old"
      and rr: "read_row R old fin = (cells, fin')"
      and s: "write_cells d (y * vw) cells = Inr d1"
      and r: "loadNative_rows R vw vh (y + 1) fin' d1 = Inr d'"
      by (subst (asm) loadNative_rows.simps) (auto split: sum.splits prod.splits)
    from "1.IH" [OF True rc rr [symmetric] s r] write_cells_length [OF s] show ?thesis by simp
  next
    case False
    with "1.prems" show ?thesis by (subst (asm) loadNative_rows.simps) simp
  qed
qed

lemma loadGDAL_rows_length:
  "loadGDAL_rows ds xo yo vw vh y d = Inr d' \<Longrightarrow> length d' = length d"
proof (induction ds xo yo vw vh y d rule: loadGDAL_rows.induct)
  case (1 ds xo yo vw vh y d)
  show ?case
  proof (cases "y < yo + vh")
    case True
    with "1.prems" obtain cells d1 where rr: "RasterIO_Read ds xo y vw = Some cells"
      and s: "write_cells d ((y - yo) * vw) cells = Inr d1"
      and r: "loadGDAL_rows ds xo yo vw vh (y + 1) d1 = Inr d'"
      by (subst (asm) loadGDAL_rows.simps) (auto split: sum.splits option.splits)
    from "1.IH" [OF True rr s r] write_cells_length [OF s] show ?thesis by simp
  next
    case False
    with "1.prems" show ?thesis by (subst (asm) loadGDAL_rows.simps) simp
  qed
qed

text \<open>
  \<^verbatim>\<open>resize\<close>: when it returns, the buffer has as many cells as the product of the
  extents is in 32 bits; when it throws, the buffer is empty under the extents that
  were.
\<close>

lemma resize_Ok:
  assumes "resize w h v a = Ok a'"
  shows "a' = a\<lparr> data := replicate (nat (wrap32 (w * h))) v, total_height := h,
                 view_height := h, total_width := w, view_width := w \<rparr>"
    and "0 \<le> wrap32 (w * h)"
  using assms by (auto simp: resize_def split: if_splits)

lemma resize_Throws:
  assumes "resize w h v a = Throws e a'"
  shows "a' = a\<lparr> data := [] \<rparr>" and "wrap32 (w * h) < 0" and "e = LengthError"
  using assms by (auto simp: resize_def split: if_splits)

lemma resize_not_Fails: "resize w h v a \<noteq> Fails e"
  by (simp add: resize_def)

lemma resize_length: "resize w h v a = Ok a' \<Longrightarrow> int (length (data a')) = viewSize a'"
  by (auto simp: resize_def viewSize_def split: if_splits)

lemma viewSize_in_range:
  "int32 (view_width a * view_height a) \<Longrightarrow> viewSize a = view_width a * view_height a"
  by (simp add: viewSize_def wrap32_id)

lemma length_viewSize_buffer_inv:
  "int (length (data a)) = viewSize a \<Longrightarrow> int32 (view_width a * view_height a)
   \<Longrightarrow> buffer_inv a"
  by (simp add: buffer_inv_def viewSize_in_range)

lemma resize_like_length:
  "resize_like other v a = Ok a' \<Longrightarrow> int (length (data a')) = viewSize a'"
  by (auto simp: resize_like_def resize_def viewSize_def split: result.splits if_splits)

lemma loadNative_length:
  "loadNative R fs fname a = Ok a' \<Longrightarrow> int (length (data a')) = viewSize a'"
proof -
  assume l: "loadNative R fs fname a = Ok a'"
  then obtain a1 fin a2 d where
    r: "resize (view_width a1) (view_height a1) 0 a1 = Ok a2"
    and rows: "loadNative_rows R (view_width a2) (view_height a2) 0 fin (data a2) = Inr d"
    and a': "a' = a2\<lparr> data := d \<rparr>"
    by (auto simp: loadNative_def split: option.splits sum.splits result.splits prod.splits)
  from resize_length [OF r] loadNative_rows_length [OF rows] a'
  show ?thesis by (simp add: viewSize_def)
qed

lemma loadGDAL_length:
  "loadGDAL fin xo yo pw ph a = Inr a' \<Longrightarrow> int (length (data a')) = viewSize a'"
  apply (clarsimp simp: loadGDAL_def Let_def split: option.splits sum.splits if_splits result.splits)
  apply (drule resize_length)
  apply (drule loadGDAL_rows_length)
  apply (simp add: viewSize_def)
  done

lemma Array2D_default_buffer_inv: "buffer_inv (Array2D_default nd dt)"
  by (simp add: buffer_inv_def Array2D_default_def)

lemma setAll_buffer_inv: "buffer_inv a \<Longrightarrow> buffer_inv (setAll v a)"
  by (simp add: setAll_def buffer_inv_def)

lemma setNoData_buffer_inv: "buffer_inv a \<Longrightarrow> buffer_inv (setNoData v a)"
  by (simp add: setNoData_def buffer_inv_def)

lemma setRow_buffer_inv: "buffer_inv a \<Longrightarrow> setRow y v a = Inr a' \<Longrightarrow> buffer_inv a'"
  by (auto simp: setRow_def buffer_inv_def split: sum.splits dest: setRow_loop_length)

lemma setCol_buffer_inv: "buffer_inv a \<Longrightarrow> setCol x v a = Inr a' \<Longrightarrow> buffer_inv a'"
  by (auto simp: setCol_def buffer_inv_def split: sum.splits dest: setCol_loop_length)

lemma set_i_buffer_inv: "buffer_inv a \<Longrightarrow> set_i i v a = Inr a' \<Longrightarrow> buffer_inv a'"
  by (auto simp: set_i_def buffer_inv_def split: sum.splits if_splits dest: store_cell_length)

lemma set_xy_buffer_inv: "buffer_inv a \<Longrightarrow> set_xy x y v a = Inr a' \<Longrightarrow> buffer_inv a'"
  by (auto simp: set_xy_def buffer_inv_def split: sum.splits if_splits dest: store_cell_length)

lemma countDataCells_buffer_inv: "buffer_inv a \<Longrightarrow> buffer_inv (countDataCells a)"
  by (simp add: countDataCells_def buffer_inv_def)

lemma numDataCells_buffer_inv: "buffer_inv a \<Longrightarrow> buffer_inv (snd (numDataCells a))"
  by (simp add: numDataCells_def countDataCells_def buffer_inv_def)

lemma clear_buffer_inv: "buffer_inv (clear a) \<longleftrightarrow> view_width a * view_height a = 0"
  by (auto simp: clear_def buffer_inv_def)

subsection \<open>The arrays that the interface builds\<close>












subsection \<open>Counting data cells\<close>

lemma countDataCells_loop_eq:
  "countDataCells_loop nd xs n = n + int (length (filter (\<lambda>v. v \<noteq> nd) xs))"
  by (induction xs arbitrary: n) auto

lemma numDataCells_value:
  "fst (numDataCells a) =
     (if num_data_cells a = - 1 then brute_force_count a else num_data_cells a)"
  by (simp add: numDataCells_def countDataCells_def countDataCells_loop_eq
      brute_force_count_def Let_def)

lemma setRow_num_data_cells: "setRow y v a = Inr a' \<Longrightarrow> num_data_cells a' = num_data_cells a"
  by (auto simp: setRow_def split: sum.splits)

lemma setCol_num_data_cells: "setCol x v a = Inr a' \<Longrightarrow> num_data_cells a' = num_data_cells a"
  by (auto simp: setCol_def split: sum.splits)

lemma set_i_num_data_cells: "set_i i v a = Inr a' \<Longrightarrow> num_data_cells a' = num_data_cells a"
  by (auto simp: set_i_def split: sum.splits if_splits)

lemma set_xy_num_data_cells: "set_xy x y v a = Inr a' \<Longrightarrow> num_data_cells a' = num_data_cells a"
  by (auto simp: set_xy_def split: sum.splits if_splits)

text \<open>
  C4, as the code has it. \<^verbatim>\<open>numDataCells()\<close> returns the count by brute force of the
  cells that differ from \<^verbatim>\<open>no_data\<close> when no count is cached (\<^verbatim>\<open>num_data_cells\<close> is
  \<open>-1\<close>), and caches it; when a count is cached it returns the cached value.
  \<^verbatim>\<open>countDataCells()\<close> always recounts. \<^verbatim>\<open>setAll\<close>, \<^verbatim>\<open>setNoData\<close>, \<^verbatim>\<open>setRow\<close>, \<^verbatim>\<open>setCol\<close>
  and a write to a cell leave the cached value as it is.
\<close>

theorem numDataCells_cached:
  "fst (numDataCells a) =
     (if num_data_cells a = - 1 then brute_force_count a else num_data_cells a)
   \<and> num_data_cells (snd (numDataCells a)) = fst (numDataCells a)
   \<and> num_data_cells (countDataCells a) = brute_force_count a
   \<and> num_data_cells (setAll v a) = num_data_cells a
   \<and> num_data_cells (setNoData v a) = num_data_cells a
   \<and> (setRow y v a = Inr a1 \<longrightarrow> num_data_cells a1 = num_data_cells a)
   \<and> (setCol x v a = Inr a2 \<longrightarrow> num_data_cells a2 = num_data_cells a)
   \<and> (set_i i v a = Inr a3 \<longrightarrow> num_data_cells a3 = num_data_cells a)
   \<and> (set_xy x y v a = Inr a4 \<longrightarrow> num_data_cells a4 = num_data_cells a)"
proof -
  have "num_data_cells (snd (numDataCells a)) = fst (numDataCells a)"
    by (simp add: numDataCells_def Let_def)
  moreover have "num_data_cells (countDataCells a) = brute_force_count a"
    by (simp add: countDataCells_def countDataCells_loop_eq brute_force_count_def)
  moreover have "num_data_cells (setAll v a) = num_data_cells a"
    by (simp add: setAll_def)
  moreover have "num_data_cells (setNoData v a) = num_data_cells a"
    by (simp add: setNoData_def)
  ultimately show ?thesis
    using numDataCells_value [of a] setRow_num_data_cells [of y v a a1]
      setCol_num_data_cells [of x v a a2] set_i_num_data_cells [of i v a a3]
      set_xy_num_data_cells [of x y v a a4]
    by blast
qed

lemma setRow_grid_2x1: "setRow 0 (- 1) grid_2x1 = Inr (grid_2x1\<lparr> data := [- 1, - 1] \<rparr>)"
  by (simp add: setRow_def setRow_loop.simps store_cell_def wrap32_def grid_2x1_def)

lemma setCol_grid_2x1: "setCol 1 (- 1) grid_2x1 = Inr (grid_2x1\<lparr> data := [0, - 1] \<rparr>)"
  by (simp add: setCol_def setCol_loop.simps store_cell_def wrap32_def grid_2x1_def)

lemma set_i_grid_2x1: "set_i 1 (- 1) grid_2x1 = Inr (grid_2x1\<lparr> data := [0, - 1] \<rparr>)"
  by (simp add: set_i_def store_cell_def wrap32_def grid_2x1_def)

lemma set_xy_grid_2x1: "set_xy 1 0 (- 1) grid_2x1 = Inr (grid_2x1\<lparr> data := [0, - 1] \<rparr>)"
  by (simp add: set_xy_def store_cell_def grid_2x1_def xyToI_def wrap32_def)

theorem numDataCells_cached_witness:
  "fst (numDataCells grid_2x1) = 2
   \<and> fst (numDataCells (snd (numDataCells grid_2x1))) = 2
   \<and> setRow 0 (- 1) grid_2x1 = Inr (grid_2x1\<lparr> data := [- 1, - 1] \<rparr>)
   \<and> num_data_cells (grid_2x1\<lparr> data := [- 1, - 1] \<rparr>) = num_data_cells grid_2x1
   \<and> setCol 1 (- 1) grid_2x1 = Inr (grid_2x1\<lparr> data := [0, - 1] \<rparr>)
   \<and> set_i 1 (- 1) grid_2x1 = Inr (grid_2x1\<lparr> data := [0, - 1] \<rparr>)
   \<and> set_xy 1 0 (- 1) grid_2x1 = Inr (grid_2x1\<lparr> data := [0, - 1] \<rparr>)
   \<and> num_data_cells (grid_2x1\<lparr> data := [0, - 1] \<rparr>) = num_data_cells grid_2x1"
proof -
  have c: "brute_force_count grid_2x1 = 2" "num_data_cells grid_2x1 = - 1"
    by (simp_all add: brute_force_count_def grid_2x1_def)
  have c2: "num_data_cells (snd (numDataCells grid_2x1)) = 2"
    using numDataCells_cached [of grid_2x1] c by simp
  show ?thesis
    using numDataCells_cached [of grid_2x1 "- 1" 0 "grid_2x1\<lparr> data := [- 1, - 1] \<rparr>" 1
        "grid_2x1\<lparr> data := [0, - 1] \<rparr>" 1 "grid_2x1\<lparr> data := [0, - 1] \<rparr>"
        "grid_2x1\<lparr> data := [0, - 1] \<rparr>"]
      numDataCells_cached [of "snd (numDataCells grid_2x1)"]
      c c2 setRow_grid_2x1 setCol_grid_2x1 set_i_grid_2x1 set_xy_grid_2x1
    by simp
qed

text \<open>
  The count is not the count by brute force after a mutation: two cells are counted,
  \<^verbatim>\<open>setAll\<close> then makes both the no-data value, and \<^verbatim>\<open>numDataCells()\<close> still returns 2.
\<close>

theorem numDataCells_stale_after_setAll:
  "fst (numDataCells (setAll (- 1) (snd (numDataCells grid_2x1)))) = 2
   \<and> brute_force_count (setAll (- 1) (snd (numDataCells grid_2x1))) = 0"
  by (simp add: numDataCells_def countDataCells_def setAll_def brute_force_count_def
      grid_2x1_def Let_def)

subsection \<open>Setting the no-data value\<close>

text \<open>
  C9. \<^verbatim>\<open>setNoData(v)\<close> changes the field \<^verbatim>\<open>no_data\<close> only: the pixel buffer, the
  extents and offsets, the geotransform, the projection and the cached
  \<^verbatim>\<open>num_data_cells\<close> are as before, so that a count that was cached is returned
  afterwards without a recount against the new value.
\<close>

theorem setNoData_frame:
  "no_data (setNoData v a) = v
   \<and> data (setNoData v a) = data a
   \<and> total_width (setNoData v a) = total_width a
   \<and> total_height (setNoData v a) = total_height a
   \<and> view_width (setNoData v a) = view_width a
   \<and> view_height (setNoData v a) = view_height a
   \<and> view_xoff (setNoData v a) = view_xoff a
   \<and> view_yoff (setNoData v a) = view_yoff a
   \<and> geotransform (setNoData v a) = geotransform a
   \<and> projection (setNoData v a) = projection a
   \<and> filename (setNoData v a) = filename a
   \<and> basename (setNoData v a) = basename a
   \<and> data_type (setNoData v a) = data_type a
   \<and> num_data_cells (setNoData v a) = num_data_cells a
   \<and> (num_data_cells a \<noteq> - 1 \<longrightarrow> numDataCells (setNoData v a) = (num_data_cells a, setNoData v a))"
  by (simp add: setNoData_def numDataCells_def)

theorem setNoData_frame_witness:
  "num_data_cells wide_2x1 \<noteq> - 1
   \<and> numDataCells (setNoData 1 wide_2x1) = (2, setNoData 1 wide_2x1)
   \<and> brute_force_count (setNoData 1 wide_2x1) = 1"
proof -
  have h: "num_data_cells wide_2x1 \<noteq> - 1" "num_data_cells wide_2x1 = 2"
    by (simp_all add: wide_2x1_def)
  have "brute_force_count (setNoData 1 wide_2x1) = 1"
    by (simp add: brute_force_count_def setNoData_def wide_2x1_def)
  then show ?thesis using setNoData_frame [of 1 wide_2x1] h by simp
qed

subsection \<open>Saving through the raster library\<close>

lemma read_cells_row:
  assumes "0 \<le> vw" "0 \<le> y" "y < vh" "int (length d) = vw * vh"
  shows "read_cells d (y * vw) vw = Inr (take (nat vw) (drop (nat (y * vw)) d))"
proof -
  have "(y + 1) * vw \<le> vh * vw" using assms by (intro mult_right_mono) auto
  then have "y * vw + vw \<le> int (length d)" using assms by (simp add: algebra_simps)
  then show ?thesis using assms by (simp add: read_cells_def)
qed

lemma saveGDAL_rows_succeeds:
  assumes "0 \<le> vw" "0 \<le> y" "int (length d) = vw * vh" "\<forall>y. RasterIO_Write_ok drv y"
  shows "\<exists>rows'. saveGDAL_rows drv d vw vh y rows = Inr rows'"
  using assms
proof (induction drv d vw vh y rows rule: saveGDAL_rows.induct)
  case (1 drv d vw vh y rows)
  show ?case
  proof (cases "y < vh")
    case False
    then show ?thesis by (subst saveGDAL_rows.simps) simp
  next
    case True
    have rc: "read_cells d (y * vw) vw = Inr (take (nat vw) (drop (nat (y * vw)) d))"
      using read_cells_row [OF "1.prems"(1,2) True "1.prems"(3)] .
    have w: "\<not> \<not> RasterIO_Write_ok drv y" using "1.prems"(4) by simp
    from "1.IH" [OF True rc w] "1.prems"
    obtain rows' where "saveGDAL_rows drv d vw vh (y + 1)
        (rows @ [take (nat vw) (drop (nat (y * vw)) d)]) = Inr rows'"
      by auto
    with True rc "1.prems"(4) show ?thesis
      by (subst saveGDAL_rows.simps) simp
  qed
qed

lemma saveGDAL_result_geotransform:
  assumes g: "geotransform a = [g0, g1, g2, g3, g4, g5]"
    and s: "saveGDAL drv T ops fname xoffset yoffset a = Inr out"
  shows "out_geotransform out =
      [d_add ops g0 (d_mul ops (d_of_int ops xoffset) g1), g1, g2,
       d_add ops g3 (d_mul ops (d_of_int ops yoffset) g5), g4, g5]"
  using s g
  by (auto simp: saveGDAL_def Let_def split: if_splits sum.splits)

lemma saveGDAL_succeeds:
  assumes "driver_found drv" "NativeTypeToGDAL T = Inr ty" "Create_ok drv fname"
    "\<forall>y. RasterIO_Write_ok drv y" "6 \<le> length (geotransform a)"
    "buffer_inv a" "0 \<le> view_width a"
  shows "\<exists>out. saveGDAL drv T ops fname xoffset yoffset a = Inr out"
proof -
  from assms have "int (length (data a)) = view_width a * view_height a"
    by (simp add: buffer_inv_def)
  from saveGDAL_rows_succeeds [OF assms(7) _ this assms(4), of 0 "[]"]
  obtain rows where "saveGDAL_rows drv (data a) (view_width a) (view_height a) 0 [] = Inr rows"
    by auto
  with assms show ?thesis by (simp add: saveGDAL_def Let_def)
qed

text \<open>
  C7. The geotransform that \<^verbatim>\<open>saveGDAL\<close> hands to the new dataset is that of the array
  with element 0 replaced by \<open>g0 + xoffset * g1\<close> and element 3 by
  \<open>g3 + yoffset * g5\<close>, the other four elements as they are; and the save succeeds
  when the library does, the array holds its buffer and its width is not negative.
\<close>

theorem saveGDAL_geotransform:
  "(geotransform a = [g0, g1, g2, g3, g4, g5]
      \<and> saveGDAL drv T ops fname xoffset yoffset a = Inr out
    \<longrightarrow> out_geotransform out =
         [d_add ops g0 (d_mul ops (d_of_int ops xoffset) g1), g1, g2,
          d_add ops g3 (d_mul ops (d_of_int ops yoffset) g5), g4, g5])
   \<and> (geotransform a = [g0, g1, g2, g3, g4, g5]
      \<and> driver_found drv \<and> NativeTypeToGDAL T = Inr ty \<and> Create_ok drv fname
      \<and> (\<forall>y. RasterIO_Write_ok drv y) \<and> buffer_inv a \<and> 0 \<le> view_width a
    \<longrightarrow> (\<exists>out'. saveGDAL drv T ops fname xoffset yoffset a = Inr out'))"
  using saveGDAL_result_geotransform [of a g0 g1 g2 g3 g4 g5 drv T ops fname xoffset yoffset out]
    saveGDAL_succeeds [of drv T ty fname a ops xoffset yoffset]
  by auto

lemma saveGDAL_wide_2x1:
  "saveGDAL gtiff_driver T_uint32 real_ops ''out.tif'' 3 4 wide_2x1 =
     Inr \<lparr> out_filename = ''out.tif'', out_width = 2, out_height = 1, out_type = GDT_UInt32,
           out_no_data = 0, out_geotransform = [7, 2, 0, 19, 0, 4], out_projection = [],
           out_rows = [[1, 256]] \<rparr>"
  by (simp add: saveGDAL_def saveGDAL_rows.simps read_cells_def wide_2x1_def gtiff_driver_def
      real_ops_def Let_def)

theorem saveGDAL_geotransform_witness:
  "geotransform wide_2x1 = [1, 2, 0, 3, 0, 4]
   \<and> (\<exists>out. saveGDAL gtiff_driver T_uint32 real_ops ''out.tif'' 3 4 wide_2x1 = Inr out
         \<and> out_geotransform out = [1 + 3 * 2, 2, 0, 3 + 4 * 4, 0, 4])"
proof -
  have g: "geotransform wide_2x1 = [1, 2, 0, 3, 0, 4]" by (simp add: wide_2x1_def)
  have ops: "d_add real_ops = (+)" "d_mul real_ops = (*)" "d_of_int real_ops = of_int"
    by (simp_all add: real_ops_def)
  obtain out where s: "saveGDAL gtiff_driver T_uint32 real_ops ''out.tif'' 3 4 wide_2x1 = Inr out"
    using saveGDAL_wide_2x1 by blast
  from saveGDAL_geotransform [of wide_2x1 1 2 0 3 0 4 gtiff_driver T_uint32 real_ops
      "''out.tif''" 3 4 out] g s ops
  have "out_geotransform out = [1 + 3 * 2, 2, 0, 3 + 4 * 4, 0, 4]" by simp
  with g s show ?thesis by blast
qed

subsection \<open>Loading through the raster library\<close>

lemma loadGDAL_tile_2x2:
  "loadGDAL (Some raster_3x3) 1 1 2 2 (Array2D_default 0 GDT_Unknown) = Inr tile_2x2"
  by (simp add: loadGDAL_def loadGDAL_part_def resize_def loadGDAL_rows.simps
      raster_3x3_def raster_dataset_def raster_RasterIO_def write_cells_def
      Array2D_default_def empty_Array2D_def tile_2x2_def wrap32_def Let_def)

text \<open>
  A window that exceeds the raster is clamped: offset 5 and width 20 on ten columns
  give a view of five columns.
\<close>

lemma loadGDAL_clamps_example:
  "loadGDAL (Some raster_10x1) 5 0 20 0 (Array2D_default 0 GDT_Unknown)
   = Inr \<lparr> filename = [], basename = [], geotransform = [0, 1, 0, 0, 0, - 1],
       projection = ''EPSG:4326'', data = [5, 6, 7, 8, 9],
       data_type = GDT_Byte, total_height = 1, total_width = 5, view_height = 1,
       view_width = 5, view_xoff = 5, view_yoff = 0, num_data_cells = - 1,
       no_data = 255 \<rparr>"
  by (simp add: loadGDAL_def loadGDAL_part_def resize_def loadGDAL_rows.simps
      raster_10x1_def raster_dataset_def raster_RasterIO_def write_cells_def
      Array2D_default_def empty_Array2D_def wrap32_def Let_def)

text \<open>
  C2. A requested width of 0 at an offset inside the raster gives the total width, not
  the width that remains from the offset: at offset 3 of ten columns the window is ten
  columns wide, it leaves the raster, and the read of its first row fails.
\<close>

theorem loadGDAL_zero_width_at_offset:
  "loadGDAL_part 10 3 0 = 10
   \<and> loadGDAL (Some raster_10x1) 3 0 0 0 (Array2D_default 0 GDT_Unknown :: (byte, real) Array2D)
       = Inl ReadError"
  by (simp add: loadGDAL_def loadGDAL_part_def resize_def loadGDAL_rows.simps
      raster_10x1_def raster_dataset_def raster_RasterIO_def write_cells_def
      Array2D_default_def empty_Array2D_def wrap32_def Let_def)

lemma loadGDAL_part_clamps:
  "0 \<le> offset \<Longrightarrow> offset < total_size \<Longrightarrow> total_size < offset + part
   \<Longrightarrow> loadGDAL_part total_size offset part = total_size - offset"
  by (simp add: loadGDAL_part_def)

lemma loadGDAL_part_zero:
  "offset < total_size \<Longrightarrow> loadGDAL_part total_size offset 0 = total_size"
  by (simp add: loadGDAL_part_def)

lemma loadGDAL_view:
  "loadGDAL (Some ds) xo yo pw ph a = Inr a' \<Longrightarrow>
   view_width a' = loadGDAL_part (GetXSize ds) xo pw
   \<and> view_height a' = loadGDAL_part (GetYSize ds) yo ph
   \<and> view_xoff a' = xo \<and> view_yoff a' = yo"
  by (auto simp: loadGDAL_def Let_def resize_def split: option.splits sum.splits if_splits result.splits)

subsection \<open>Equality\<close>

lemma equal_loop_eq:
  assumes "n \<le> int (length d1)" "n \<le> int (length d2)" "0 \<le> i"
  shows "equal_loop ne d1 d2 n i
         = Inr (\<forall>j. i \<le> j \<and> j < n \<longrightarrow> \<not> ne (d1 ! nat j) (d2 ! nat j))"
  using assms
proof (induction ne d1 d2 n i rule: equal_loop.induct)
  case (1 ne d1 d2 n i)
  show ?case
  proof (cases "i < n")
    case False
    then have t: "(\<forall>j. i \<le> j \<and> j < n \<longrightarrow> \<not> ne (d1 ! nat j) (d2 ! nat j)) = True"
      by auto
    have "equal_loop ne d1 d2 n i = Inr True"
      using False by (subst equal_loop.simps) simp
    then show ?thesis by (simp only: t)
  next
    case True
    with "1.prems" have l1: "load_cell d1 i = Inr (d1 ! nat i)"
      and l2: "load_cell d2 i = Inr (d2 ! nat i)"
      by (simp_all add: load_cell_def)
    show ?thesis
    proof (cases "ne (d1 ! nat i) (d2 ! nat i)")
      case ne: True
      have "equal_loop ne d1 d2 n i = Inr False"
        using True l1 l2 ne by (subst equal_loop.simps) simp
      moreover have "(\<forall>j. i \<le> j \<and> j < n \<longrightarrow> \<not> ne (d1 ! nat j) (d2 ! nat j)) = False"
        using True ne by auto
      ultimately show ?thesis by (simp only:)
    next
      case eq: False
      have ih: "equal_loop ne d1 d2 n (i + 1) =
          Inr (\<forall>j. i + 1 \<le> j \<and> j < n \<longrightarrow> \<not> ne (d1 ! nat j) (d2 ! nat j))"
        using "1.IH" [OF True l1 l2 eq] "1.prems" by simp
      have "(\<forall>j. i + 1 \<le> j \<and> j < n \<longrightarrow> \<not> ne (d1 ! nat j) (d2 ! nat j))
          = (\<forall>j. i \<le> j \<and> j < n \<longrightarrow> \<not> ne (d1 ! nat j) (d2 ! nat j))"
      proof
        assume h: "\<forall>j. i + 1 \<le> j \<and> j < n \<longrightarrow> \<not> ne (d1 ! nat j) (d2 ! nat j)"
        show "\<forall>j. i \<le> j \<and> j < n \<longrightarrow> \<not> ne (d1 ! nat j) (d2 ! nat j)"
        proof (intro allI impI)
          fix j assume "i \<le> j \<and> j < n"
          then show "\<not> ne (d1 ! nat j) (d2 ! nat j)" using h eq by (cases "j = i") auto
        qed
      next
        assume "\<forall>j. i \<le> j \<and> j < n \<longrightarrow> \<not> ne (d1 ! nat j) (d2 ! nat j)"
        then show "\<forall>j. i + 1 \<le> j \<and> j < n \<longrightarrow> \<not> ne (d1 ! nat j) (d2 ! nat j)" by auto
      qed
      moreover have "equal_loop ne d1 d2 n i = equal_loop ne d1 d2 n (i + 1)"
        using True l1 l2 eq by (subst equal_loop.simps) simp
      ultimately show ?thesis using ih by (simp only:)
    qed
  qed
qed

lemma equal_op_value:
  assumes "buffer_inv a" "buffer_inv b" "view_width a * view_height a < 2 ^ 31"
  shows "equal_op ne a b =
     Inr (view_width a = view_width b \<and> view_height a = view_height b
          \<and> \<not> ne (no_data a) (no_data b)
          \<and> (\<forall>i. 0 \<le> i \<and> i < view_width a * view_height a
                 \<longrightarrow> \<not> ne (data a ! nat i) (data b ! nat i)))"
proof (cases "view_width a = view_width b \<and> view_height a = view_height b
    \<and> \<not> ne (no_data a) (no_data b)")
  case False
  then show ?thesis by (auto simp: equal_op_def)
next
  case True
  have nn: "0 \<le> view_width a * view_height a" using assms(1) by (simp add: buffer_inv_def)
  have w: "wrap32 (view_width a * view_height a) = view_width a * view_height a"
    using nn assms(3) by (rule wrap32_nonneg_id)
  from True assms have "view_width a * view_height a \<le> int (length (data a))"
    "view_width a * view_height a \<le> int (length (data b))"
    by (simp_all add: buffer_inv_def)
  from equal_loop_eq [OF this, of 0 ne] True w show ?thesis
    by (simp add: equal_op_def)
qed

lemma equal_op_identity:
  assumes "buffer_inv a" "buffer_inv b" "view_width a * view_height a < 2 ^ 31"
  shows "equal_op id_ne a b =
     Inr (view_width a = view_width b \<and> view_height a = view_height b
          \<and> no_data a = no_data b \<and> data a = data b)"
proof -
  have "(view_width a = view_width b \<and> view_height a = view_height b
          \<and> \<not> id_ne (no_data a) (no_data b)
          \<and> (\<forall>i. 0 \<le> i \<and> i < view_width a * view_height a
                 \<longrightarrow> \<not> id_ne (data a ! nat i) (data b ! nat i)))
      = (view_width a = view_width b \<and> view_height a = view_height b
          \<and> no_data a = no_data b \<and> data a = data b)" (is "?L = ?R")
  proof
    assume l: ?L
    with assms have len: "length (data a) = length (data b)"
      and n: "view_width a * view_height a = int (length (data a))"
      by (simp_all add: buffer_inv_def)
    have "data a = data b"
    proof (rule nth_equalityI [OF len])
      fix k assume "k < length (data a)"
      then have "0 \<le> int k \<and> int k < view_width a * view_height a" using n by simp
      with l have "\<not> id_ne (data a ! nat (int k)) (data b ! nat (int k))" by blast
      then show "data a ! k = data b ! k" by (simp add: id_ne_def)
    qed
    with l show ?R by (simp add: id_ne_def)
  next
    assume ?R then show ?L by (simp add: id_ne_def)
  qed
  with equal_op_value [OF assms, of id_ne] show ?thesis by simp
qed

text \<open>
  C6, as the code has it. For two arrays that hold their buffers, \<^verbatim>\<open>operator==\<close> is true
  exactly when the view widths and heights are the same, the no-data values do not
  compare \<^verbatim>\<open>!=\<close> and no two corresponding cells compare \<^verbatim>\<open>!=\<close>; on an element type
  whose \<^verbatim>\<open>!=\<close> is the negation of identity that is: the same extents, the same no-data
  value and the same cells. The total extents, the view offsets, the geotransform, the
  projection and the cached count of either side are not looked at.
\<close>

theorem equal_op_iff:
  "(buffer_inv a \<and> buffer_inv b \<and> view_width a * view_height a < 2 ^ 31 \<longrightarrow>
      equal_op ne a b =
        Inr (view_width a = view_width b \<and> view_height a = view_height b
             \<and> \<not> ne (no_data a) (no_data b)
             \<and> (\<forall>i. 0 \<le> i \<and> i < view_width a * view_height a
                    \<longrightarrow> \<not> ne (data a ! nat i) (data b ! nat i))))
   \<and> (buffer_inv a \<and> buffer_inv b \<and> view_width a * view_height a < 2 ^ 31 \<longrightarrow>
      equal_op id_ne a b =
        Inr (view_width a = view_width b \<and> view_height a = view_height b
             \<and> no_data a = no_data b \<and> data a = data b))
   \<and> equal_op ne (a\<lparr> total_width := tw, total_height := th, view_xoff := xo, view_yoff := yo,
                  geotransform := gt, projection := pr, num_data_cells := n \<rparr>) b
       = equal_op ne a b
   \<and> equal_op ne a (b\<lparr> total_width := tw, total_height := th, view_xoff := xo, view_yoff := yo,
                  geotransform := gt, projection := pr, num_data_cells := n \<rparr>)
       = equal_op ne a b"
  using equal_op_value [of a b ne] equal_op_identity [of a b] by (simp add: equal_op_def)

theorem equal_op_iff_witness:
  "buffer_inv window_a \<and> buffer_inv window_b \<and> buffer_inv window_c
   \<and> view_width window_a * view_height window_a < 2 ^ 31
   \<and> total_width window_a \<noteq> total_width window_b
   \<and> total_height window_a \<noteq> total_height window_b
   \<and> equal_op id_ne window_a window_b = Inr True
   \<and> data window_a = data window_c \<and> no_data window_a \<noteq> no_data window_c
   \<and> equal_op id_ne window_a window_c = Inr False"
proof -
  have inv: "buffer_inv window_a" "buffer_inv window_b" "buffer_inv window_c"
    "view_width window_a * view_height window_a < 2 ^ 31"
    by (simp_all add: buffer_inv_def window_a_def window_b_def window_c_def)
  note t = equal_op_iff [THEN conjunct2, THEN conjunct1, THEN mp]
  have ab: "equal_op id_ne window_a window_b = Inr True"
    using t [of window_a window_b] inv by (simp add: window_a_def window_b_def)
  have ac: "equal_op id_ne window_a window_c = Inr False"
    using t [of window_a window_c] inv by (simp add: window_a_def window_c_def)
  show ?thesis using inv ab ac by (simp add: window_a_def window_b_def window_c_def)
qed

text \<open>
  A view with a cell that is not a number is not equal to itself, and \<^verbatim>\<open>operator==\<close>
  on two arrays that were cleared reads cells of empty vectors.
\<close>

theorem equal_op_nan_and_cleared:
  "buffer_inv nan_view \<and> equal_op fp_ne nan_view nan_view = Inr False
   \<and> equal_op id_ne (clear window_a) (clear window_a) = Inl OutOfBounds"
  by (simp add: buffer_inv_def equal_op_def equal_loop.simps load_cell_def wrap32_def
      clear_def nan_view_def window_a_def id_ne_def)

subsection \<open>The native file format\<close>

lemma int_bytes_length: "length (int_bytes x) = 4"
  by (simp add: int_bytes_def Let_def)

lemma bytes_int_unsigned:
  assumes "0 \<le> n" "n < 2 ^ 32"
  shows "foldr (\<lambda>b acc. uint b + 256 * acc)
           [word_of_int (n mod 256) :: byte, word_of_int (n div 256 mod 256),
            word_of_int (n div 65536 mod 256), word_of_int (n div 16777216 mod 256)] 0 = n"
proof -
  have u: "\<And>k. uint (word_of_int (k mod 256) :: byte) = k mod 256"
    by (simp add: uint_word_of_int take_bit_eq_mod)
  have d3: "n div 16777216 mod 256 = n div 16777216" using assms by simp
  define a where "a = n div 256"
  define b where "b = n div 65536"
  define c where "c = n div 16777216"
  have e0: "n mod 256 + 256 * a = n" by (simp add: a_def)
  have "a div 256 = b" by (simp add: a_def b_def div_mult2_eq [symmetric])
  then have e1: "a mod 256 + 256 * b = a" by (metis mod_mult_div_eq)
  have "b div 256 = c" by (simp add: b_def c_def div_mult2_eq [symmetric])
  then have e2: "b mod 256 + 256 * c = b" by (metis mod_mult_div_eq)
  have sum: "n mod 256 + 256 * (a mod 256 + 256 * (b mod 256 + 256 * c)) = n"
    by (simp only: e2 e1 e0)
  have cm: "c mod 256 = c" using d3 by (simp add: c_def)
  have sum': "n mod 256 + 256 * (a mod 256 + 256 * (b mod 256 + 256 * (c mod 256))) = n"
    by (simp only: cm sum)
  have fold: "foldr (\<lambda>b acc. uint b + 256 * acc)
           [word_of_int (n mod 256) :: byte, word_of_int (a mod 256),
            word_of_int (b mod 256), word_of_int (c mod 256)] 0
        = n mod 256 + 256 * (a mod 256 + 256 * (b mod 256 + 256 * (c mod 256)))"
    by (simp add: u)
  from fold sum' have "foldr (\<lambda>b acc. uint b + 256 * acc)
           [word_of_int (n mod 256) :: byte, word_of_int (a mod 256),
            word_of_int (b mod 256), word_of_int (c mod 256)] 0 = n"
    by (rule trans)
  then show ?thesis by (simp only: a_def b_def c_def)
qed

lemma bytes_int_int_bytes:
  assumes "int32 x"
  shows "bytes_int (int_bytes x) = x"
proof -
  let ?n = "x mod 2 ^ 32"
  have r: "0 \<le> ?n" "?n < 2 ^ 32" by simp_all
  have f: "bytes_int (int_bytes x) = (if ?n < 2 ^ 31 then ?n else ?n - 2 ^ 32)"
    unfolding bytes_int_def int_bytes_def Let_def
    by (simp only: bytes_int_unsigned [OF r])
  show ?thesis
  proof (cases "0 \<le> x")
    case True
    with assms have "?n = x" by (simp add: int32_def)
    with f assms show ?thesis by (simp add: int32_def)
  next
    case False
    have "(x + 2 ^ 32) mod 2 ^ 32 = x + 2 ^ 32"
      using assms False by (intro mod_pos_pos_trivial) (simp_all add: int32_def)
    then have "?n = x + 2 ^ 32" by simp
    with f assms False show ?thesis by (simp add: int32_def)
  qed
qed

text \<open>Reads from a good stream that holds what was written.\<close>

lemma istream_read_prefix:
  "istream_read (length bs) \<lparr> pending = bs @ rest, stream_good = True \<rparr>
   = (bs, \<lparr> pending = rest, stream_good = True \<rparr>)"
  by (simp add: istream_read_def)

lemma read_int_int_bytes:
  assumes "int32 x"
  shows "read_int v \<lparr> pending = int_bytes x @ rest, stream_good = True \<rparr>
         = (x, \<lparr> pending = rest, stream_good = True \<rparr>)"
proof -
  have ne: "int_bytes x \<noteq> []" by (simp add: int_bytes_def Let_def)
  from istream_read_prefix [of "int_bytes x" rest] ne bytes_int_int_bytes [OF assms]
  show ?thesis by (simp add: read_int_def int_bytes_length)
qed

lemma read_T_T_bytes:
  assumes "repr_ok R"
  shows "read_T R v \<lparr> pending = T_bytes R x @ rest, stream_good = True \<rparr>
         = (x, \<lparr> pending = rest, stream_good = True \<rparr>)"
proof -
  have l: "length (T_bytes R x) = sizeof_T R" "length (T_bytes R v) = sizeof_T R"
    and p: "0 < sizeof_T R" and b: "bytes_T R (T_bytes R x) = x"
    using assms by (simp_all add: repr_ok_def)
  then have ne: "T_bytes R x \<noteq> []" by auto
  from istream_read_prefix [of "T_bytes R x" rest] ne l b
  show ?thesis by (simp add: read_T_def)
qed

lemma concat_T_bytes_length:
  "repr_ok R \<Longrightarrow> length (concat (map (T_bytes R) xs)) = length xs * sizeof_T R"
  by (induction xs) (simp_all add: repr_ok_def)

lemma decode_cells_concat:
  "repr_ok R \<Longrightarrow> decode_cells R (length xs) (concat (map (T_bytes R) xs) @ rest) = xs"
  by (induction xs) (simp_all add: repr_ok_def)

lemma read_row_T_bytes:
  assumes "repr_ok R" "length old = length xs"
  shows "read_row R old \<lparr> pending = concat (map (T_bytes R) xs) @ rest, stream_good = True \<rparr>
         = (xs, \<lparr> pending = rest, stream_good = True \<rparr>)"
proof -
  let ?bs = "concat (map (T_bytes R) xs)"
  have p: "0 < sizeof_T R" using assms(1) by (simp add: repr_ok_def)
  have l: "length ?bs = length xs * sizeof_T R"
    by (rule concat_T_bytes_length [OF assms(1)])
  have lo: "length (concat (map (T_bytes R) old)) = length xs * sizeof_T R"
    using concat_T_bytes_length [OF assms(1), of old] assms(2) by simp
  have rd: "istream_read (length old * sizeof_T R)
      \<lparr> pending = ?bs @ rest, stream_good = True \<rparr>
      = (?bs, \<lparr> pending = rest, stream_good = True \<rparr>)"
    using istream_read_prefix [of ?bs rest] l assms(2) by simp
  have t: "(length ?bs + sizeof_T R - 1) div sizeof_T R = length xs"
  proof -
    have "length ?bs + sizeof_T R - 1 = length xs * sizeof_T R + (sizeof_T R - 1)"
      using l p by simp
    moreover have "(length xs * sizeof_T R + (sizeof_T R - 1)) div sizeof_T R
        = length xs + (sizeof_T R - 1) div sizeof_T R"
      using p by (intro div_mult_self3) simp
    moreover have "(sizeof_T R - 1) div sizeof_T R = 0" using p by simp
    ultimately show ?thesis by simp
  qed
  have dc: "decode_cells R (length xs) ?bs = xs"
    using decode_cells_concat [OF assms(1), of xs "[]"] by simp
  show ?thesis
    unfolding read_row_def rd prod.case Let_def t
    using dc l lo assms(2) by simp
qed

lemma row_split:
  assumes "0 \<le> vw" "0 \<le> y" "y < vh" "int (length d) = vw * vh"
  shows "nat ((y + 1) * vw) = nat (y * vw) + nat vw"
    and "nat (y * vw) + nat vw \<le> length d"
    and "drop (nat (y * vw)) d = take (nat vw) (drop (nat (y * vw)) d) @ drop (nat ((y + 1) * vw)) d"
    and "int (length (take (nat vw) (drop (nat (y * vw)) d))) = vw"
proof -
  have yw: "0 \<le> y * vw" using assms by simp
  show s: "nat ((y + 1) * vw) = nat (y * vw) + nat vw"
    using assms yw by (simp add: algebra_simps nat_add_distrib)
  have "(y + 1) * vw \<le> vh * vw" using assms by (intro mult_right_mono) auto
  then have "(y + 1) * vw \<le> int (length d)" using assms by (simp add: algebra_simps)
  then have "nat ((y + 1) * vw) \<le> length d" by linarith
  then show b: "nat (y * vw) + nat vw \<le> length d" using s by simp
  show "drop (nat (y * vw)) d = take (nat vw) (drop (nat (y * vw)) d) @ drop (nat ((y + 1) * vw)) d"
    by (simp add: s add.commute [of "nat (y * vw)" "nat vw"] drop_drop [symmetric] del: drop_drop)
  show "int (length (take (nat vw) (drop (nat (y * vw)) d))) = vw"
    using b assms by simp
qed

lemma saveNative_rows_result:
  assumes "0 \<le> vw" "0 \<le> y" "y \<le> vh" "int (length d) = vw * vh"
  shows "saveNative_rows R d vw vh y fout
         = Inr (fout @ concat (map (T_bytes R) (drop (nat (y * vw)) d)))"
  using assms
proof (induction R d vw vh y fout rule: saveNative_rows.induct)
  case (1 R d vw vh y fout)
  show ?case
  proof (cases "y < vh")
    case False
    with "1.prems" have "y = vh" by simp
    with "1.prems" have "drop (nat (y * vw)) d = []" by (simp add: mult.commute)
    with False show ?thesis by (subst saveNative_rows.simps) simp
  next
    case True
    have rc: "read_cells d (y * vw) vw = Inr (take (nat vw) (drop (nat (y * vw)) d))"
      using read_cells_row [OF "1.prems"(1,2) True "1.prems"(4)] .
    have ih: "saveNative_rows R d vw vh (y + 1)
        (fout @ concat (map (T_bytes R) (take (nat vw) (drop (nat (y * vw)) d))))
      = Inr ((fout @ concat (map (T_bytes R) (take (nat vw) (drop (nat (y * vw)) d))))
             @ concat (map (T_bytes R) (drop (nat ((y + 1) * vw)) d)))"
      using "1.IH" [OF True rc] "1.prems" True by simp
    have "concat (map (T_bytes R) (drop (nat (y * vw)) d))
        = concat (map (T_bytes R) (take (nat vw) (drop (nat (y * vw)) d)))
          @ concat (map (T_bytes R) (drop (nat ((y + 1) * vw)) d))"
      by (subst row_split(3) [OF "1.prems"(1,2) True "1.prems"(4)]) simp
    with ih True rc show ?thesis
      by (subst saveNative_rows.simps) simp
  qed
qed

lemma loadNative_rows_result:
  assumes "repr_ok R" "0 \<le> vw" "0 \<le> y" "y \<le> vh"
    "int (length orig) = vw * vh" "length d = length orig"
  shows "loadNative_rows R vw vh y
           \<lparr> pending = concat (map (T_bytes R) (drop (nat (y * vw)) orig)), stream_good = True \<rparr> d
         = Inr (take (nat (y * vw)) d @ drop (nat (y * vw)) orig)"
  using assms
proof (induction R vw vh y
    "\<lparr> pending = concat (map (T_bytes R) (drop (nat (y * vw)) orig)), stream_good = True \<rparr>" d
    rule: loadNative_rows.induct)
  case (1 R vw vh y d)
  show ?case
  proof (cases "y < vh")
    case False
    with "1.prems" have "y = vh" by simp
    with "1.prems" have "drop (nat (y * vw)) orig = []" "take (nat (y * vw)) d = d"
      by (simp_all add: mult.commute)
    with False show ?thesis by (subst loadNative_rows.simps) simp
  next
    case True
    let ?k = "nat (y * vw)"
    let ?row = "take (nat vw) (drop ?k orig)"
    let ?old = "take (nat vw) (drop ?k d)"
    let ?rest = "concat (map (T_bytes R) (drop (nat ((y + 1) * vw)) orig))"
    let ?fin' = "\<lparr> pending = ?rest, stream_good = True \<rparr>"
    note sp = row_split [OF "1.prems"(2,3) True "1.prems"(5)]
    have dl: "int (length d) = vw * vh" using "1.prems"(5,6) by simp
    note spd = row_split [OF "1.prems"(2,3) True dl]
    have rc: "read_cells d (y * vw) vw = Inr ?old"
      by (rule read_cells_row [OF "1.prems"(2,3) True dl])
    have fin: "concat (map (T_bytes R) (drop ?k orig)) = concat (map (T_bytes R) ?row) @ ?rest"
      by (subst sp(3)) simp
    have lo: "length ?old = length ?row" using sp(4) spd(4) by linarith
    have rr: "read_row R ?old
        \<lparr> pending = concat (map (T_bytes R) (drop ?k orig)), stream_good = True \<rparr>
        = (?row, ?fin')"
      unfolding fin by (rule read_row_T_bytes [OF "1.prems"(1) lo])
    have lr: "length ?row = nat vw" using sp(4) "1.prems"(2) by linarith
    have wc: "write_cells d (y * vw) ?row
        = Inr (take ?k d @ ?row @ drop (?k + length ?row) d)"
      using sp(2) "1.prems"(2,3,6) lr by (simp add: write_cells_def)
    let ?d1 = "take ?k d @ ?row @ drop (?k + length ?row) d"
    have ld1: "length ?d1 = length orig"
      using write_cells_length [OF wc] "1.prems"(6) by simp
    have ih: "loadNative_rows R vw vh (y + 1) ?fin' ?d1
        = Inr (take (nat ((y + 1) * vw)) ?d1 @ drop (nat ((y + 1) * vw)) orig)"
      using "1.hyps" [OF True rc rr [symmetric] wc "1.prems"(1,2) _ _ "1.prems"(5) ld1]
        "1.prems" True by simp
    have kd: "?k \<le> length d" using sp(2) "1.prems"(6) by simp
    have "take (nat ((y + 1) * vw)) ?d1 = take ?k d @ ?row"
      using kd lr by (simp add: sp(1))
    then have "take (nat ((y + 1) * vw)) ?d1 @ drop (nat ((y + 1) * vw)) orig
        = take ?k d @ drop ?k orig"
      using sp(3) by simp
    with ih rc rr wc True show ?thesis
      by (subst loadNative_rows.simps) simp
  qed
qed

lemma read_header_of_saved:
  assumes "repr_ok R" "header_int32 a"
  shows "read_header R
           \<lparr> pending = int_bytes (total_height a) @ int_bytes (total_width a)
              @ int_bytes (view_height a) @ int_bytes (view_width a)
              @ int_bytes (view_xoff a) @ int_bytes (view_yoff a)
              @ int_bytes (num_data_cells a) @ T_bytes R (no_data a) @ payload,
             stream_good = True \<rparr> b
         = (b\<lparr> total_height := total_height a, total_width := total_width a,
                 view_height := view_height a, view_width := view_width a,
                 view_xoff := view_xoff a, view_yoff := view_yoff a,
                 num_data_cells := num_data_cells a, no_data := no_data a \<rparr>,
            \<lparr> pending = payload, stream_good = True \<rparr>)"
  using assms
  by (simp add: read_header_def header_int32_def read_int_int_bytes read_T_T_bytes)

lemma saveNative_result:
  assumes "writable fs fname" "buffer_inv a" "0 \<le> view_width a" "0 \<le> view_height a"
  shows "saveNative R fs fname a =
     Inr (fs\<lparr> files := (files fs)(fname \<mapsto>
            int_bytes (total_height a) @ int_bytes (total_width a)
            @ int_bytes (view_height a) @ int_bytes (view_width a)
            @ int_bytes (view_xoff a) @ int_bytes (view_yoff a)
            @ int_bytes (num_data_cells a) @ T_bytes R (no_data a)
            @ concat (map (T_bytes R) (data a))) \<rparr>)"
proof -
  have "int (length (data a)) = view_width a * view_height a"
    using assms by (simp add: buffer_inv_def)
  from saveNative_rows_result [OF assms(3) _ assms(4) this, where R = R] assms(1)
  show ?thesis by (simp add: saveNative_def Let_def)
qed

lemma loadNative_of_saved:
  assumes "repr_ok R" "header_int32 a" "buffer_inv a" "0 \<le> view_width a" "0 \<le> view_height a"
    "view_width a * view_height a < 2 ^ 31"
    and f: "files fs fname = Some
            (int_bytes (total_height a) @ int_bytes (total_width a)
            @ int_bytes (view_height a) @ int_bytes (view_width a)
            @ int_bytes (view_xoff a) @ int_bytes (view_yoff a)
            @ int_bytes (num_data_cells a) @ T_bytes R (no_data a)
            @ concat (map (T_bytes R) (data a)))"
  shows "loadNative R fs fname b =
     Ok (b\<lparr> total_height := view_height a, total_width := view_width a,
              view_height := view_height a, view_width := view_width a,
              view_xoff := view_xoff a, view_yoff := view_yoff a,
              num_data_cells := num_data_cells a, no_data := no_data a,
              data := data a \<rparr>)"
proof -
  let ?b1 = "b\<lparr> total_height := total_height a, total_width := total_width a,
                 view_height := view_height a, view_width := view_width a,
                 view_xoff := view_xoff a, view_yoff := view_yoff a,
                 num_data_cells := num_data_cells a, no_data := no_data a \<rparr>"
  let ?zeros = "replicate (nat (view_width a * view_height a)) (0::'a)"
  let ?b2 = "?b1\<lparr> data := ?zeros, total_height := view_height a,
                 view_height := view_height a, total_width := view_width a,
                 view_width := view_width a \<rparr>"
  have len: "int (length (data a)) = view_width a * view_height a"
    using assms(3) by (simp add: buffer_inv_def)
  have nn: "0 \<le> view_width a * view_height a"
    using mult_nonneg_nonneg [OF assms(4,5)] .
  have w: "wrap32 (view_width a * view_height a) = view_width a * view_height a"
    using nn assms(6) by (rule wrap32_nonneg_id)
  have rs: "resize (view_width ?b1) (view_height ?b1) 0 ?b1 = Ok ?b2"
    using nn w by (simp add: resize_def)
  have lz: "length ?zeros = length (data a)" using len by simp
  have rows: "loadNative_rows R (view_width a) (view_height a) 0
      \<lparr> pending = concat (map (T_bytes R) (data a)), stream_good = True \<rparr> ?zeros
      = Inr (data a)"
    using loadNative_rows_result [OF assms(1,4) _ assms(5) len lz] by simp
  have hd: "read_header R
           \<lparr> pending = int_bytes (total_height a) @ int_bytes (total_width a)
              @ int_bytes (view_height a) @ int_bytes (view_width a)
              @ int_bytes (view_xoff a) @ int_bytes (view_yoff a)
              @ int_bytes (num_data_cells a) @ T_bytes R (no_data a)
              @ concat (map (T_bytes R) (data a)),
             stream_good = True \<rparr> b
         = (?b1, \<lparr> pending = concat (map (T_bytes R) (data a)), stream_good = True \<rparr>)"
    by (rule read_header_of_saved [OF assms(1,2)])
  show ?thesis
    unfolding loadNative_def f option.case hd prod.case rs result.case
    using rows by simp
qed






lemma uint8_repr_ok: "repr_ok uint8_repr"
  by (simp add: repr_ok_def uint8_repr_def)





subsection \<open>The length of the pixel buffer\<close>

text \<open>
  C3, as the code has it. After construction, after a \<^verbatim>\<open>resize\<close> that returns and after
  a load that returns, the length of the pixel buffer is \<^verbatim>\<open>view_width*view_height\<close> as
  the 32-bit \<^verbatim>\<open>int\<close> holds it, which is the product where the product is a value of
  that type. A \<^verbatim>\<open>resize\<close> whose product is negative in 32 bits throws and leaves the
  buffer empty under the extents that the array had. \<^verbatim>\<open>setAll\<close>, \<^verbatim>\<open>setRow\<close>, \<^verbatim>\<open>setCol\<close>,
  a write to a cell, \<^verbatim>\<open>setNoData\<close> and the counting of data cells keep the property.
  \<^verbatim>\<open>clear\<close> empties the buffer and leaves the view extents as they are, so after it the
  property holds only when \<^verbatim>\<open>view_width*view_height\<close> is 0.
\<close>

theorem buffer_length_preserved:
  "buffer_inv (Array2D_default nd dt :: ('a::zero, 'd) Array2D)
   \<and> (Array2D_sized w h v nd dt = Ok (a0 :: ('a, 'd) Array2D)
        \<longrightarrow> int (length (data a0)) = viewSize a0 \<and> (int32 (w * h) \<longrightarrow> buffer_inv a0))
   \<and> (resize w h v a = Ok a1
        \<longrightarrow> int (length (data a1)) = viewSize a1 \<and> (int32 (w * h) \<longrightarrow> buffer_inv a1))
   \<and> (resize w h v a = Throws e a1'
        \<longrightarrow> data a1' = [] \<and> view_width a1' = view_width a
            \<and> view_height a1' = view_height a)
   \<and> (resize_like (other :: ('u, 'd) Array2D) v a = Ok a2
        \<longrightarrow> int (length (data a2)) = viewSize a2
            \<and> (int32 (view_width other * view_height other) \<longrightarrow> buffer_inv a2))
   \<and> (buffer_inv a \<longrightarrow> buffer_inv (setAll v a))
   \<and> (buffer_inv a \<and> setRow y v a = Inr a3 \<longrightarrow> buffer_inv a3)
   \<and> (buffer_inv a \<and> setCol x v a = Inr a4 \<longrightarrow> buffer_inv a4)
   \<and> (buffer_inv a \<and> set_i i v a = Inr a5 \<longrightarrow> buffer_inv a5)
   \<and> (buffer_inv a \<and> set_xy x y v a = Inr a6 \<longrightarrow> buffer_inv a6)
   \<and> (buffer_inv a \<longrightarrow> buffer_inv (setNoData v a))
   \<and> (buffer_inv a \<longrightarrow> buffer_inv (countDataCells a) \<and> buffer_inv (snd (numDataCells a)))
   \<and> (loadNative R fs fname a = Ok a7
        \<longrightarrow> int (length (data a7)) = viewSize a7
            \<and> (int32 (view_width a7 * view_height a7) \<longrightarrow> buffer_inv a7))
   \<and> (loadGDAL fin xo yo pw ph a = Inr a8
        \<longrightarrow> int (length (data a8)) = viewSize a8
            \<and> (int32 (view_width a8 * view_height a8) \<longrightarrow> buffer_inv a8))
   \<and> data (clear a) = [] \<and> view_width (clear a) = view_width a
   \<and> view_height (clear a) = view_height a
   \<and> (buffer_inv (clear a) \<longleftrightarrow> view_width a * view_height a = 0)"
proof -
  have c1: "buffer_inv (Array2D_default nd dt :: ('a, 'd) Array2D)"
    by (rule Array2D_default_buffer_inv)
  have c2: "Array2D_sized w h v nd dt = Ok a0
        \<longrightarrow> int (length (data a0)) = viewSize a0 \<and> (int32 (w * h) \<longrightarrow> buffer_inv a0)"
  proof (intro impI conjI)
    assume r: "Array2D_sized w h v nd dt = Ok a0"
    then have r': "resize w h v (Array2D_default nd dt) = Ok a0"
      by (simp add: Array2D_sized_def)
    from resize_length [OF r'] show l: "int (length (data a0)) = viewSize a0" .
    assume "int32 (w * h)"
    with resize_Ok(1) [OF r'] l show "buffer_inv a0"
      by (intro length_viewSize_buffer_inv) simp_all
  qed
  have c3: "resize w h v a = Ok a1
        \<longrightarrow> int (length (data a1)) = viewSize a1 \<and> (int32 (w * h) \<longrightarrow> buffer_inv a1)"
  proof (intro impI conjI)
    assume r: "resize w h v a = Ok a1"
    from resize_length [OF r] show l: "int (length (data a1)) = viewSize a1" .
    assume "int32 (w * h)"
    with resize_Ok(1) [OF r] l show "buffer_inv a1"
      by (intro length_viewSize_buffer_inv) simp_all
  qed
  have c4: "resize w h v a = Throws e a1'
        \<longrightarrow> data a1' = [] \<and> view_width a1' = view_width a
            \<and> view_height a1' = view_height a"
    by (auto dest: resize_Throws(1))
  have c5: "resize_like other v a = Ok a2
        \<longrightarrow> int (length (data a2)) = viewSize a2
            \<and> (int32 (view_width other * view_height other) \<longrightarrow> buffer_inv a2)"
  proof (intro impI conjI)
    assume r: "resize_like other v a = Ok a2"
    from resize_like_length [OF r] show l: "int (length (data a2)) = viewSize a2" .
    from r have e: "view_width a2 = view_width other" "view_height a2 = view_height other"
      by (auto simp: resize_like_def resize_def split: result.splits if_splits)
    assume "int32 (view_width other * view_height other)"
    with e l show "buffer_inv a2"
      by (intro length_viewSize_buffer_inv) simp_all
  qed
  have c13: "loadNative R fs fname a = Ok a7
        \<longrightarrow> int (length (data a7)) = viewSize a7
            \<and> (int32 (view_width a7 * view_height a7) \<longrightarrow> buffer_inv a7)"
    using loadNative_length [of R fs fname a a7] length_viewSize_buffer_inv [of a7] by blast
  have c14: "loadGDAL fin xo yo pw ph a = Inr a8
        \<longrightarrow> int (length (data a8)) = viewSize a8
            \<and> (int32 (view_width a8 * view_height a8) \<longrightarrow> buffer_inv a8)"
    using loadGDAL_length [of fin xo yo pw ph a a8] length_viewSize_buffer_inv [of a8]
    by blast
  have c15: "data (clear a) = [] \<and> view_width (clear a) = view_width a
      \<and> view_height (clear a) = view_height a"
    by (simp add: clear_def)
  show ?thesis
    using c1 c2 c3 c4 c5 c13 c14 c15 setAll_buffer_inv [of a v]
      setRow_buffer_inv [of a y v a3] setCol_buffer_inv [of a x v a4]
      set_i_buffer_inv [of a i v a5] set_xy_buffer_inv [of a x y v a6]
      setNoData_buffer_inv [of a v] countDataCells_buffer_inv [of a]
      numDataCells_buffer_inv [of a] clear_buffer_inv [of a]
    by blast
qed

lemma Array2D_sized_2x2:
  "Array2D_sized 2 2 7 255 GDT_Byte
   = Ok ((Array2D_default 255 GDT_Byte :: (byte, real) Array2D)
          \<lparr> data := [7, 7, 7, 7], total_height := 2, view_height := 2,
            total_width := 2, view_width := 2 \<rparr>)"
  by (simp add: Array2D_sized_def resize_def wrap32_def Array2D_default_def numeral_eq_Suc)

lemma resize_tile_2x2:
  "resize 1 3 0 tile_2x2
   = Ok (tile_2x2\<lparr> data := [0, 0, 0], total_height := 3, view_height := 3,
                     total_width := 1, view_width := 1 \<rparr>)"
  by (simp add: resize_def wrap32_def tile_2x2_def numeral_eq_Suc)

lemma resize_throws_tile_2x2:
  "resize (- 1) 3 0 tile_2x2 = Throws LengthError (tile_2x2\<lparr> data := [] \<rparr>)"
  by (simp add: resize_def wrap32_def tile_2x2_def)

lemma resize_like_tile_2x2:
  "resize_like grid_2x1 0 tile_2x2
   = Ok (tile_2x2\<lparr> data := [0, 0], total_height := 1, view_height := 1,
                     total_width := 2, view_width := 2, geotransform := [] \<rparr>)"
  by (simp add: resize_like_def resize_def wrap32_def tile_2x2_def grid_2x1_def numeral_eq_Suc)

lemma setRow_tile_2x2: "setRow 0 9 tile_2x2 = Inr (tile_2x2\<lparr> data := [9, 9, 8, 9] \<rparr>)"
  by (simp add: setRow_def setRow_loop.simps store_cell_def wrap32_def tile_2x2_def)

lemma setCol_tile_2x2: "setCol 0 9 tile_2x2 = Inr (tile_2x2\<lparr> data := [9, 6, 9, 9] \<rparr>)"
  by (simp add: setCol_def setCol_loop.simps store_cell_def wrap32_def tile_2x2_def)

lemma set_i_tile_2x2: "set_i 3 0 tile_2x2 = Inr (tile_2x2\<lparr> data := [5, 6, 8, 0] \<rparr>)"
  by (simp add: set_i_def store_cell_def wrap32_def tile_2x2_def)

lemma set_xy_tile_2x2: "set_xy 1 1 0 tile_2x2 = Inr (tile_2x2\<lparr> data := [5, 6, 8, 0] \<rparr>)"
  by (simp add: set_xy_def store_cell_def tile_2x2_def xyToI_def wrap32_def)

theorem buffer_length_preserved_witness:
  "buffer_inv (Array2D_default 255 GDT_Byte :: (byte, real) Array2D)
   \<and> (\<exists>a0 :: (byte, real) Array2D. Array2D_sized 2 2 7 255 GDT_Byte = Ok a0
         \<and> int (length (data a0)) = viewSize a0 \<and> int32 (2 * 2) \<and> buffer_inv a0)
   \<and> (\<exists>a1. resize 1 3 0 tile_2x2 = Ok a1
         \<and> int (length (data a1)) = viewSize a1 \<and> int32 (1 * 3) \<and> buffer_inv a1)
   \<and> (\<exists>a1'. resize (- 1) 3 0 tile_2x2 = Throws LengthError a1'
         \<and> data a1' = [] \<and> view_width a1' = 2 \<and> view_height a1' = 2)
   \<and> (\<exists>a2. resize_like grid_2x1 0 tile_2x2 = Ok a2
         \<and> int (length (data a2)) = viewSize a2
         \<and> int32 (view_width grid_2x1 * view_height grid_2x1) \<and> buffer_inv a2)
   \<and> buffer_inv tile_2x2 \<and> buffer_inv (setAll 0 tile_2x2)
   \<and> (\<exists>a3. setRow 0 9 tile_2x2 = Inr a3 \<and> buffer_inv a3)
   \<and> (\<exists>a4. setCol 0 9 tile_2x2 = Inr a4 \<and> buffer_inv a4)
   \<and> (\<exists>a5. set_i 3 0 tile_2x2 = Inr a5 \<and> buffer_inv a5)
   \<and> (\<exists>a6. set_xy 1 1 0 tile_2x2 = Inr a6 \<and> buffer_inv a6)
   \<and> buffer_inv (setNoData 0 tile_2x2)
   \<and> buffer_inv (countDataCells tile_2x2) \<and> buffer_inv (snd (numDataCells tile_2x2))
   \<and> (\<exists>fs' a7. saveNative uint8_repr empty_disk ''tile.dat'' tile_2x2 = Inr fs'
         \<and> loadNative uint8_repr fs' ''tile.dat''
              (Array2D_default 0 GDT_Unknown :: (byte, real) Array2D) = Ok a7
         \<and> int (length (data a7)) = viewSize a7
         \<and> int32 (view_width a7 * view_height a7) \<and> buffer_inv a7)
   \<and> (\<exists>a8 :: (byte, real) Array2D.
         loadGDAL (Some raster_3x3) 1 1 2 2 (Array2D_default 0 GDT_Unknown) = Inr a8
         \<and> int (length (data a8)) = viewSize a8
         \<and> int32 (view_width a8 * view_height a8) \<and> buffer_inv a8)
   \<and> data (clear tile_2x2) = [] \<and> view_width (clear tile_2x2) = 2
   \<and> view_height (clear tile_2x2) = 2"
proof -
  let ?fresh = "Array2D_default 0 GDT_Unknown :: (byte, real) Array2D"
  have t: "buffer_inv tile_2x2"
    by (simp add: buffer_inv_def tile_2x2_def)
  have w: "writable empty_disk ''tile.dat''" "header_int32 tile_2x2"
    "0 \<le> view_width tile_2x2" "0 \<le> view_height tile_2x2"
    "view_width tile_2x2 * view_height tile_2x2 < 2 ^ 31"
    by (simp_all add: empty_disk_def header_int32_def int32_def tile_2x2_def)
  define bytes where "bytes = int_bytes (total_height tile_2x2) @ int_bytes (total_width tile_2x2)
            @ int_bytes (view_height tile_2x2) @ int_bytes (view_width tile_2x2)
            @ int_bytes (view_xoff tile_2x2) @ int_bytes (view_yoff tile_2x2)
            @ int_bytes (num_data_cells tile_2x2) @ T_bytes uint8_repr (no_data tile_2x2)
            @ concat (map (T_bytes uint8_repr) (data tile_2x2))"
  define fs' where "fs' = empty_disk\<lparr> files := (files empty_disk)(''tile.dat'' \<mapsto> bytes) \<rparr>"
  define a7 where "a7 = ?fresh\<lparr> total_height := view_height tile_2x2,
              total_width := view_width tile_2x2,
              view_height := view_height tile_2x2, view_width := view_width tile_2x2,
              view_xoff := view_xoff tile_2x2, view_yoff := view_yoff tile_2x2,
              num_data_cells := num_data_cells tile_2x2, no_data := no_data tile_2x2,
              data := data tile_2x2 \<rparr>"
  have s: "saveNative uint8_repr empty_disk ''tile.dat'' tile_2x2 = Inr fs'"
    unfolding fs'_def bytes_def by (rule saveNative_result [OF w(1) t w(3,4)])
  have f: "files fs' ''tile.dat'' = Some bytes" by (simp add: fs'_def)
  have l: "loadNative uint8_repr fs' ''tile.dat'' ?fresh = Ok a7"
    unfolding a7_def
    by (rule loadNative_of_saved [OF uint8_repr_ok w(2) t w(3,4,5) f [unfolded bytes_def]])
  have i7: "int32 (view_width a7 * view_height a7)"
    by (simp add: a7_def int32_def tile_2x2_def)
  have i8: "int32 (view_width tile_2x2 * view_height tile_2x2)"
    by (simp add: int32_def tile_2x2_def)
  have i: "int32 (2 * 2)" "int32 (1 * 3)" "int32 (view_width grid_2x1 * view_height grid_2x1)"
    by (simp_all add: int32_def grid_2x1_def)
  have p1: "buffer_inv (Array2D_default 255 GDT_Byte :: (byte, real) Array2D)"
    by (rule buffer_length_preserved [THEN conjunct1])
  have p2: "\<exists>a0 :: (byte, real) Array2D. Array2D_sized 2 2 7 255 GDT_Byte = Ok a0
         \<and> int (length (data a0)) = viewSize a0 \<and> int32 (2 * 2) \<and> buffer_inv a0"
    using buffer_length_preserved [THEN conjunct2, THEN conjunct1, THEN mp, OF Array2D_sized_2x2] Array2D_sized_2x2 i(1) by blast
  have p3: "\<exists>a1. resize 1 3 0 tile_2x2 = Ok a1
         \<and> int (length (data a1)) = viewSize a1 \<and> int32 (1 * 3) \<and> buffer_inv a1"
    using buffer_length_preserved [THEN conjunct2, THEN conjunct2, THEN conjunct1, THEN mp, OF resize_tile_2x2] resize_tile_2x2 i(2) by blast
  have p4: "\<exists>a1'. resize (- 1) 3 0 tile_2x2 = Throws LengthError a1'
         \<and> data a1' = [] \<and> view_width a1' = 2 \<and> view_height a1' = 2"
  proof -
    have "data (tile_2x2\<lparr> data := [] \<rparr>) = []
        \<and> view_width (tile_2x2\<lparr> data := [] \<rparr>) = view_width tile_2x2
        \<and> view_height (tile_2x2\<lparr> data := [] \<rparr>) = view_height tile_2x2"
      by (rule buffer_length_preserved [THEN conjunct2, THEN conjunct2, THEN conjunct2, THEN conjunct1, THEN mp, OF resize_throws_tile_2x2])
    then have "data (tile_2x2\<lparr> data := [] \<rparr>) = []
        \<and> view_width (tile_2x2\<lparr> data := [] \<rparr>) = 2
        \<and> view_height (tile_2x2\<lparr> data := [] \<rparr>) = 2"
      by (simp add: tile_2x2_def)
    with resize_throws_tile_2x2 show ?thesis by blast
  qed
  have p5: "\<exists>a2. resize_like grid_2x1 0 tile_2x2 = Ok a2
         \<and> int (length (data a2)) = viewSize a2
         \<and> int32 (view_width grid_2x1 * view_height grid_2x1) \<and> buffer_inv a2"
    using buffer_length_preserved [THEN conjunct2, THEN conjunct2, THEN conjunct2, THEN conjunct2, THEN conjunct1, THEN mp, OF resize_like_tile_2x2] resize_like_tile_2x2 i(3) by blast
  have p6: "buffer_inv (setAll 0 tile_2x2)"
    by (rule buffer_length_preserved [THEN conjunct2, THEN conjunct2, THEN conjunct2, THEN conjunct2, THEN conjunct2, THEN conjunct1, THEN mp, OF t])
  have p7: "\<exists>a3. setRow 0 9 tile_2x2 = Inr a3 \<and> buffer_inv a3"
    using buffer_length_preserved [THEN conjunct2, THEN conjunct2, THEN conjunct2, THEN conjunct2, THEN conjunct2, THEN conjunct2, THEN conjunct1, THEN mp, OF conjI, OF t setRow_tile_2x2] setRow_tile_2x2 by blast
  have p8: "\<exists>a4. setCol 0 9 tile_2x2 = Inr a4 \<and> buffer_inv a4"
    using buffer_length_preserved [THEN conjunct2, THEN conjunct2, THEN conjunct2, THEN conjunct2, THEN conjunct2, THEN conjunct2, THEN conjunct2, THEN conjunct1, THEN mp, OF conjI, OF t setCol_tile_2x2] setCol_tile_2x2 by blast
  have p9: "\<exists>a5. set_i 3 0 tile_2x2 = Inr a5 \<and> buffer_inv a5"
    using buffer_length_preserved [THEN conjunct2, THEN conjunct2, THEN conjunct2, THEN conjunct2, THEN conjunct2, THEN conjunct2, THEN conjunct2, THEN conjunct2, THEN conjunct1, THEN mp, OF conjI, OF t set_i_tile_2x2] set_i_tile_2x2 by blast
  have p10: "\<exists>a6. set_xy 1 1 0 tile_2x2 = Inr a6 \<and> buffer_inv a6"
    using buffer_length_preserved [THEN conjunct2, THEN conjunct2, THEN conjunct2, THEN conjunct2, THEN conjunct2, THEN conjunct2, THEN conjunct2, THEN conjunct2, THEN conjunct2, THEN conjunct1, THEN mp, OF conjI, OF t set_xy_tile_2x2] set_xy_tile_2x2 by blast
  have p11: "buffer_inv (setNoData 0 tile_2x2)"
    by (rule buffer_length_preserved [THEN conjunct2, THEN conjunct2, THEN conjunct2, THEN conjunct2, THEN conjunct2, THEN conjunct2, THEN conjunct2, THEN conjunct2, THEN conjunct2, THEN conjunct2, THEN conjunct1, THEN mp, OF t])
  have p12: "buffer_inv (countDataCells tile_2x2) \<and> buffer_inv (snd (numDataCells tile_2x2))"
    by (rule buffer_length_preserved [THEN conjunct2, THEN conjunct2, THEN conjunct2, THEN conjunct2, THEN conjunct2, THEN conjunct2, THEN conjunct2, THEN conjunct2, THEN conjunct2, THEN conjunct2, THEN conjunct2, THEN conjunct1, THEN mp, OF t])
  have p13: "int (length (data a7)) = viewSize a7 \<and> buffer_inv a7"
    using buffer_length_preserved [THEN conjunct2, THEN conjunct2, THEN conjunct2, THEN conjunct2, THEN conjunct2, THEN conjunct2, THEN conjunct2, THEN conjunct2, THEN conjunct2, THEN conjunct2, THEN conjunct2, THEN conjunct2, THEN conjunct1, THEN mp, OF l] i7 by blast
  have p14: "\<exists>a8 :: (byte, real) Array2D.
         loadGDAL (Some raster_3x3) 1 1 2 2 (Array2D_default 0 GDT_Unknown) = Inr a8
         \<and> int (length (data a8)) = viewSize a8
         \<and> int32 (view_width a8 * view_height a8) \<and> buffer_inv a8"
    using buffer_length_preserved [THEN conjunct2, THEN conjunct2, THEN conjunct2, THEN conjunct2, THEN conjunct2, THEN conjunct2, THEN conjunct2, THEN conjunct2, THEN conjunct2, THEN conjunct2, THEN conjunct2, THEN conjunct2, THEN conjunct2, THEN conjunct1, THEN mp, OF loadGDAL_tile_2x2] loadGDAL_tile_2x2 i8 by blast
  have p15: "data (clear tile_2x2) = [] \<and> view_width (clear tile_2x2) = 2
      \<and> view_height (clear tile_2x2) = 2"
    by (simp add: clear_def tile_2x2_def)
  have p13': "\<exists>fs' a7. saveNative uint8_repr empty_disk ''tile.dat'' tile_2x2 = Inr fs'
         \<and> loadNative uint8_repr fs' ''tile.dat''
              (Array2D_default 0 GDT_Unknown :: (byte, real) Array2D) = Ok a7
         \<and> int (length (data a7)) = viewSize a7
         \<and> int32 (view_width a7 * view_height a7) \<and> buffer_inv a7"
    using s l p13 i7 by blast
  show ?thesis
    using p1 p2 p3 p4 p5 p6 p7 p8 p9 p10 p11 p12 p13' p14 p15 t by blast
qed

text \<open>
  \<^verbatim>\<open>clear\<close> on a view of two columns and two rows: the buffer is empty and the view
  extents still multiply to 4.
\<close>

theorem clear_breaks_buffer_length:
  "buffer_inv tile_2x2 \<and> length (data (clear tile_2x2)) = 0
   \<and> view_width (clear tile_2x2) * view_height (clear tile_2x2) = 4
   \<and> \<not> buffer_inv (clear tile_2x2)"
  by (simp add: buffer_inv_def clear_def tile_2x2_def)

text \<open>
  \<^verbatim>\<open>Array2D(65536,65536)\<close>: the product of the extents is 0 in 32 bits, so the buffer is
  empty under a view of 65536 columns and 65536 rows.
\<close>

lemma wide_view_buffer_length:
  "Array2D_sized 65536 65536 0 255 GDT_Byte = Ok wide_view
   \<and> int (length (data wide_view)) = viewSize wide_view
   \<and> length (data wide_view) = 0
   \<and> view_width wide_view * view_height wide_view = 4294967296
   \<and> \<not> buffer_inv wide_view"
  using resize_wide_view
  by (simp add: Array2D_sized_def viewSize_def wrap32_def buffer_inv_def wide_view_def)

end
